theory Spec2Isabelle
  imports Main
begin

section \<open>Type attributes (TypeAttributes.ts)\<close>

text \<open>
  A thrown JavaScript value. \<open>panic\<close> (from Support) throws with its message; the
  renderer also throws plain strings.
\<close>

datatype error = Panic string | Thrown string

text \<open>
  \<open>class TypeAttributeKind<T>\<close>: the fields \<open>name\<close> and \<open>combine\<close>. A call of
  \<open>combine\<close> either returns a value or throws, so it returns \<open>error + 'v\<close>. The type
  \<open>'v\<close> stands for the attribute values \<open>T\<close> (never \<open>undefined\<close>); \<open>T | undefined\<close> is
  \<open>'v option\<close>.
\<close>

record 'v TypeAttributeKind =
  name :: string
  combine :: "'v \<Rightarrow> 'v \<Rightarrow> error + 'v"

text \<open>
  The constructor: an omitted \<open>combine\<close> is replaced by a function that panics.
\<close>

definition newTypeAttributeKind :: "string \<Rightarrow> ('v \<Rightarrow> 'v \<Rightarrow> 'v) option \<Rightarrow> 'v TypeAttributeKind" where
  "newTypeAttributeKind n c =
     \<lparr> name = n,
       combine = (case c of
                    None \<Rightarrow> (\<lambda>a b. Inl (Panic (''Cannot combine type attribute '' @ n)))
                  | Some f \<Rightarrow> (\<lambda>a b. Inr (f a b))) \<rparr>"

text \<open>The argument \<open>other: any\<close> of \<open>equals\<close>: a kind instance or some other object.\<close>

datatype 'v JSAny = KindObject "'v TypeAttributeKind" | OtherObject

definition equals :: "'v TypeAttributeKind \<Rightarrow> 'v JSAny \<Rightarrow> bool" where
  "equals this other =
     (case other of
        OtherObject \<Rightarrow> False
      | KindObject k \<Rightarrow> name this = name k)"

text \<open>\<open>hashCode\<close>; the string hash of the Immutable library is the parameter \<open>hash\<close>.\<close>

definition hashCode :: "(string \<Rightarrow> nat) \<Rightarrow> 'v TypeAttributeKind \<Rightarrow> nat" where
  "hashCode hash this = hash (name this)"

subsection \<open>The Immutable Map holding a bag\<close>

text \<open>
  \<open>type TypeAttributes = Map<TypeAttributeKind<any>, any>\<close>. The Immutable Map is
  modelled by its entries, as a list of (key object, value) pairs in iteration order. Keys
  are compared as Immutable's \<open>is\<close> compares value objects, by their \<open>equals\<close> method. A
  well-formed Map has at most one entry per key (\<open>wellFormed\<close>).
\<close>

type_synonym 'v TypeAttributes = "('v TypeAttributeKind \<times> 'v) list"

definition sameKey :: "'v TypeAttributeKind \<Rightarrow> 'v TypeAttributeKind \<Rightarrow> bool" where
  "sameKey k k' = equals k (KindObject k')"

definition wellFormed :: "'v TypeAttributes \<Rightarrow> bool" where
  "wellFormed a = distinct (map (\<lambda>e. name (fst e)) a)"

fun mapFind :: "'v TypeAttributes \<Rightarrow> 'v TypeAttributeKind \<Rightarrow> ('v TypeAttributeKind \<times> 'v) option" where
  "mapFind [] k = None"
| "mapFind (e # es) k = (if sameKey k (fst e) then Some e else mapFind es k)"

definition mapGet :: "'v TypeAttributes \<Rightarrow> 'v TypeAttributeKind \<Rightarrow> 'v option" where
  "mapGet a k = map_option snd (mapFind a k)"

text \<open>\<open>set\<close>: an entry with an equal key is replaced where it stands, a new one is added.\<close>

fun mapSet :: "'v TypeAttributes \<Rightarrow> 'v TypeAttributeKind \<Rightarrow> 'v \<Rightarrow> 'v TypeAttributes" where
  "mapSet [] k v = [(k, v)]"
| "mapSet (e # es) k v = (if sameKey k (fst e) then (k, v) # es else e # mapSet es k v)"

definition mapRemove :: "'v TypeAttributes \<Rightarrow> 'v TypeAttributeKind \<Rightarrow> 'v TypeAttributes" where
  "mapRemove a k = filter (\<lambda>e. \<not> sameKey k (fst e)) a"

text \<open>
  \<open>mergeWith(merger, ...iters)\<close>: every entry of every incoming Map, in order, is
  written into the receiver; where the receiver already has the key, the value written is
  \<open>merger(existing, value, key)\<close>, with the key of the incoming entry. A merger that
  throws ends the merge.
\<close>

definition mergeEntry ::
  "('v \<Rightarrow> 'v \<Rightarrow> 'v TypeAttributeKind \<Rightarrow> error + 'v) \<Rightarrow> 'v TypeAttributes \<Rightarrow>
   'v TypeAttributeKind \<times> 'v \<Rightarrow> error + 'v TypeAttributes" where
  "mergeEntry merger m e =
     (case mapGet m (fst e) of
        None \<Rightarrow> Inr (mapSet m (fst e) (snd e))
      | Some existing \<Rightarrow>
          (case merger existing (snd e) (fst e) of
             Inl err \<Rightarrow> Inl err
           | Inr merged \<Rightarrow> Inr (mapSet m (fst e) merged)))"

fun mergeEntries ::
  "('v \<Rightarrow> 'v \<Rightarrow> 'v TypeAttributeKind \<Rightarrow> error + 'v) \<Rightarrow> 'v TypeAttributes \<Rightarrow>
   'v TypeAttributes \<Rightarrow> error + 'v TypeAttributes" where
  "mergeEntries merger m [] = Inr m"
| "mergeEntries merger m (e # es) =
     (case mergeEntry merger m e of
        Inl err \<Rightarrow> Inl err
      | Inr m' \<Rightarrow> mergeEntries merger m' es)"

fun mergeWith ::
  "('v \<Rightarrow> 'v \<Rightarrow> 'v TypeAttributeKind \<Rightarrow> error + 'v) \<Rightarrow> 'v TypeAttributes \<Rightarrow>
   'v TypeAttributes list \<Rightarrow> error + 'v TypeAttributes" where
  "mergeWith merger m [] = Inr m"
| "mergeWith merger m (b # bs) =
     (case mergeEntries merger m b of
        Inl err \<Rightarrow> Inl err
      | Inr m' \<Rightarrow> mergeWith merger m' bs)"

subsection \<open>The methods of TypeAttributeKind\<close>

definition makeAttributes :: "'v TypeAttributeKind \<Rightarrow> 'v \<Rightarrow> 'v TypeAttributes" where
  "makeAttributes this v = [(this, v)]"

definition tryGetInAttributes :: "'v TypeAttributeKind \<Rightarrow> 'v TypeAttributes \<Rightarrow> 'v option" where
  "tryGetInAttributes this a = mapGet a this"

definition setInAttributes :: "'v TypeAttributeKind \<Rightarrow> 'v TypeAttributes \<Rightarrow> 'v \<Rightarrow> 'v TypeAttributes" where
  "setInAttributes this a v = mapSet a this v"

text \<open>
  The callbacks \<open>modify\<close> and \<open>makeDefault\<close> are JavaScript functions and may have effects
  of their own: they take and return a state \<open>'s\<close>, which is threaded through, so that
  every call of a callback shows in the state returned.
\<close>

definition modifyInAttributes ::
  "'v TypeAttributeKind \<Rightarrow> 'v TypeAttributes \<Rightarrow> ('v option \<Rightarrow> 's \<Rightarrow> 'v option \<times> 's) \<Rightarrow> 's \<Rightarrow>
   'v TypeAttributes \<times> 's" where
  "modifyInAttributes this a modify s =
     (case modify (tryGetInAttributes this a) s of
        (None, s') \<Rightarrow> (mapRemove a this, s')
      | (Some modified, s') \<Rightarrow> (setInAttributes this a modified, s'))"

definition setDefaultInAttributes ::
  "'v TypeAttributeKind \<Rightarrow> 'v TypeAttributes \<Rightarrow> ('s \<Rightarrow> 'v \<times> 's) \<Rightarrow> 's \<Rightarrow> 'v TypeAttributes \<times> 's" where
  "setDefaultInAttributes this a makeDefault s =
     (if tryGetInAttributes this a \<noteq> None then (a, s)
      else modifyInAttributes this a (\<lambda>_ s0. case makeDefault s0 of (v, s1) \<Rightarrow> (Some v, s1)) s)"

definition emptyTypeAttributes :: "'v TypeAttributes" where
  "emptyTypeAttributes = []"

definition combineTypeAttributes :: "'v TypeAttributes list \<Rightarrow> error + 'v TypeAttributes" where
  "combineTypeAttributes attributeArray =
     (case attributeArray of
        [] \<Rightarrow> Inr []
      | first # rest \<Rightarrow> mergeWith (\<lambda>aa ab kind. combine kind aa ab) first rest)"

text \<open>
  A producer instrumented with a call counter: the state is paired with the number of
  calls made so far.
\<close>

definition counted :: "('s \<Rightarrow> 'v \<times> 's) \<Rightarrow> nat \<times> 's \<Rightarrow> 'v \<times> (nat \<times> 's)" where
  "counted makeDefault cs = (case makeDefault (snd cs) of (v, s') \<Rightarrow> (v, (Suc (fst cs), s')))"

subsection \<open>The combined value of one kind\<close>

text \<open>
  The fold that \<open>mergeWith\<close> performs for one kind, bag by bag: the accumulator is
  \<open>None\<close> while no bag has held the kind. It is used in the proofs only.
\<close>

fun combineAcross ::
  "'v TypeAttributeKind \<Rightarrow> 'v option \<Rightarrow> 'v TypeAttributes list \<Rightarrow> error + 'v option" where
  "combineAcross k acc [] = Inr acc"
| "combineAcross k acc (b # bs) =
     (case mapFind b k of
        None \<Rightarrow> combineAcross k acc bs
      | Some e \<Rightarrow>
          (case acc of
             None \<Rightarrow> combineAcross k (Some (snd e)) bs
           | Some a \<Rightarrow>
               (case combine (fst e) a (snd e) of
                  Inl err \<Rightarrow> Inl err
                | Inr v \<Rightarrow> combineAcross k (Some v) bs)))"

text \<open>The bags of a sequence that hold a kind.\<close>

definition holders :: "'v TypeAttributeKind \<Rightarrow> 'v TypeAttributes list \<Rightarrow> 'v TypeAttributes list" where
  "holders k bags = filter (\<lambda>a. tryGetInAttributes k a \<noteq> None) bags"

text \<open>
  The specification's wording of \<open>combineAll\<close>: the values present under a kind, in
  input order (\<open>presentEntries\<close>), are combined from left to right by repeatedly
  applying the kind's \<open>combine\<close> function (\<open>foldCombine\<close>, each step with the
  \<open>combine\<close> of the kind object keying the value folded in); a kind that no bag holds
  has no value (\<open>combinedValue\<close>).
\<close>

definition presentEntries :: "'v TypeAttributeKind \<Rightarrow> 'v TypeAttributes list \<Rightarrow> ('v TypeAttributeKind \<times> 'v) list" where
  "presentEntries k bags = List.map_filter (\<lambda>b. mapFind b k) bags"

fun foldCombine :: "'v \<Rightarrow> ('v TypeAttributeKind \<times> 'v) list \<Rightarrow> error + 'v" where
  "foldCombine acc [] = Inr acc"
| "foldCombine acc (e # es) =
     (case combine (fst e) acc (snd e) of
        Inl err \<Rightarrow> Inl err
      | Inr v \<Rightarrow> foldCombine v es)"

definition combinedValue :: "'v TypeAttributeKind \<Rightarrow> 'v TypeAttributes list \<Rightarrow> error + 'v option" where
  "combinedValue k bags =
     (case presentEntries k bags of
        [] \<Rightarrow> Inr None
      | e # es \<Rightarrow> map_sum id Some (foldCombine (snd e) es))"

text \<open>
  Modelled from the spec: \<open>setUnion\<close> of Support, which is not among the sources. The
  spec gives the merge of the \<open>description\<close> kind as the union of two sets of strings;
  an \<open>OrderedSet\<close> is a duplicate-free list in insertion order.
\<close>

definition setUnion :: "string list \<Rightarrow> string list \<Rightarrow> string list" where
  "setUnion a b = a @ filter (\<lambda>x. x \<notin> set a) b"

definition descriptionTypeAttributeKind :: "string list TypeAttributeKind" where
  "descriptionTypeAttributeKind = newTypeAttributeKind ''description'' (Some setUnion)"

section \<open>The C++ renderer\<close>

subsection \<open>The type graph and source text\<close>

text \<open>
  Modelled from the spec: the type graph of Type.ts, which is not among the sources. A node
  is one of any, null, bool, integer, double, string, array(items), map(values),
  class(name, ordered properties) and union(name, members); \<open>kind\<close> is the node's
  \<open>kind\<close> string. A \<open>Name\<close> is the opaque token of the naming subsystem: a class or
  union node carries the token that \<open>nameForNamedType\<close> returns for it, and a property
  carries the token \<open>forEachProperty\<close> passes with it, before its JSON key and type. The
  members of a union are an \<open>OrderedSet\<close>: a list in first-appearance order.
\<close>

type_synonym Name = string

datatype Type =
    AnyType
  | NullType
  | BoolType
  | IntegerType
  | DoubleType
  | StringType
  | ArrayType Type
  | ClassType Name "(Name \<times> string \<times> Type) list"
  | MapType Type
  | UnionType Name "Type list"

fun kind :: "Type \<Rightarrow> string" where
  "kind AnyType = ''any''"
| "kind NullType = ''null''"
| "kind BoolType = ''bool''"
| "kind IntegerType = ''integer''"
| "kind DoubleType = ''double''"
| "kind StringType = ''string''"
| "kind (ArrayType _) = ''array''"
| "kind (ClassType _ _) = ''class''"
| "kind (MapType _) = ''map''"
| "kind (UnionType _ _) = ''union''"

fun properties :: "Type \<Rightarrow> (Name \<times> string \<times> Type) list" where
  "properties (ClassType _ ps) = ps"
| "properties _ = []"

fun members :: "Type \<Rightarrow> Type list" where
  "members (UnionType _ ms) = ms"
| "members _ = []"

text \<open>
  Modelled from the spec: \<open>removeNullFromUnion\<close> and \<open>nullableFromUnion\<close> of Type.ts.
  The first returns whether null is a member together with the members excluding null, in
  their order; the second returns the sole non-null member of a union that has null and
  exactly one other member.
\<close>

definition removeNullFromUnion :: "Type \<Rightarrow> bool \<times> Type list" where
  "removeNullFromUnion u =
     (List.find (\<lambda>t. kind t = ''null'') (members u) \<noteq> None,
      filter (\<lambda>t. kind t \<noteq> ''null'') (members u))"

definition nullableFromUnion :: "Type \<Rightarrow> Type option" where
  "nullableFromUnion u =
     (case removeNullFromUnion u of
        (hasNull, nonNulls) \<Rightarrow>
          if \<not> hasNull then None
          else (case nonNulls of [t] \<Rightarrow> Some t | _ \<Rightarrow> None))"

text \<open>
  \<open>Sourcelike\<close> of Source.ts: a string, a name token, an array of sourcelikes, or a
  sourcelike under an issue annotation, which \<open>maybeAnnotated\<close> adds on demand.
  \<open>sourcelikeToString\<close> prints a name token as the token itself.
\<close>

datatype Annotation = anyTypeIssueAnnotation | nullTypeIssueAnnotation

datatype Sourcelike =
    Text string
  | NameToken Name
  | Parts "Sourcelike list"
  | Annotated Annotation Sourcelike

definition maybeAnnotated :: "bool \<Rightarrow> Annotation \<Rightarrow> Sourcelike \<Rightarrow> Sourcelike" where
  "maybeAnnotated doAnnotate annotation sl = (if doAnnotate then Annotated annotation sl else sl)"

fun sourcelikeToString :: "Sourcelike \<Rightarrow> string" where
  "sourcelikeToString (Text s) = s"
| "sourcelikeToString (NameToken n) = n"
| "sourcelikeToString (Parts ps) = concat (map sourcelikeToString ps)"
| "sourcelikeToString (Annotated _ sl) = sourcelikeToString sl"

subsection \<open>Emitting lines\<close>

text \<open>
  The renderer's only effect is to append lines to its output. Every emitting function
  returns the lines it appends, in order, each with its indentation depth relative to the
  caller's; \<open>indent\<close> deepens the lines of its body by one. \<open>emitLine\<close> takes the parts
  of one line.
\<close>

type_synonym Emitted = "(nat \<times> Sourcelike) list"

definition emitLine :: "Sourcelike list \<Rightarrow> Emitted" where
  "emitLine lineParts = [(0, Parts lineParts)]"

definition emitNewline :: "Emitted" where
  "emitNewline = [(0, Parts [])]"

definition indent :: "Emitted \<Rightarrow> Emitted" where
  "indent f = map (\<lambda>l. (Suc (fst l), snd l)) f"

subsection \<open>CPlusPlusRenderer\<close>

text \<open>The field \<open>_namespaceName\<close> of the renderer is the argument \<open>ns\<close>.\<close>

definition emitBlock :: "Sourcelike \<Rightarrow> bool \<Rightarrow> Emitted \<Rightarrow> Emitted" where
  "emitBlock line withSemicolon f =
     emitLine [line, Text '' {''] @ indent f @
     (if withSemicolon then emitLine [Text ''};''] else emitLine [Text ''}''])"

definition ourQualifier :: "string \<Rightarrow> bool \<Rightarrow> Sourcelike" where
  "ourQualifier namespaceName inJsonNamespace =
     (if inJsonNamespace then Parts [Text namespaceName, Text ''::''] else Parts [])"

definition jsonQualifier :: "bool \<Rightarrow> Sourcelike" where
  "jsonQualifier inJsonNamespace = (if inJsonNamespace then Parts [] else Text ''nlohmann::'')"

text \<open>
  \<open>cppType\<close> recurses into the items of an array, the values of a map and the sole
  non-null member of a nullable union, which are all smaller than the node.
\<close>

lemma nullableFromUnion_size:
  "nullableFromUnion (UnionType n ms) = Some t \<Longrightarrow> size t < size (UnionType n ms)"
proof -
  assume a: "nullableFromUnion (UnionType n ms) = Some t"
  then have "filter (\<lambda>t. kind t \<noteq> ''null'') ms = [t]"
    by (auto simp: nullableFromUnion_def removeNullFromUnion_def split: if_splits list.splits)
  then have "t \<in> set (filter (\<lambda>t. kind t \<noteq> ''null'') ms)" by simp
  then have "t \<in> set ms" by simp
  then have "size t \<le> size_list size ms" by (simp add: size_list_estimation')
  then show ?thesis by simp
qed

function cppType :: "string \<Rightarrow> Type \<Rightarrow> bool \<Rightarrow> bool \<Rightarrow> Sourcelike" where
  "cppType ns AnyType inJsonNamespace withIssues =
     maybeAnnotated withIssues anyTypeIssueAnnotation (Parts [jsonQualifier inJsonNamespace, Text ''json''])"
| "cppType ns NullType inJsonNamespace withIssues =
     maybeAnnotated withIssues nullTypeIssueAnnotation (Parts [jsonQualifier inJsonNamespace, Text ''json''])"
| "cppType ns BoolType inJsonNamespace withIssues = Text ''bool''"
| "cppType ns IntegerType inJsonNamespace withIssues = Text ''int64_t''"
| "cppType ns DoubleType inJsonNamespace withIssues = Text ''double''"
| "cppType ns StringType inJsonNamespace withIssues = Text ''std::string''"
| "cppType ns (ArrayType items) inJsonNamespace withIssues =
     Parts [Text ''std::vector<'', cppType ns items inJsonNamespace withIssues, Text ''>'']"
| "cppType ns (ClassType n ps) inJsonNamespace withIssues =
     Parts [Text ''struct '', ourQualifier ns inJsonNamespace, NameToken n]"
| "cppType ns (MapType vals) inJsonNamespace withIssues =
     Parts [Text ''std::map<std::string, '', cppType ns vals inJsonNamespace withIssues, Text ''>'']"
| "cppType ns (UnionType n ms) inJsonNamespace withIssues =
     (case nullableFromUnion (UnionType n ms) of
        None \<Rightarrow> Parts [ourQualifier ns inJsonNamespace, NameToken n]
      | Some nullable \<Rightarrow>
          Parts [Text ''boost::optional<'', cppType ns nullable inJsonNamespace withIssues, Text ''>''])"
  by pat_completeness auto
termination
  by (relation "measure (\<lambda>(ns, t, i, w). size t)") (auto dest: nullableFromUnion_size)

text \<open>
  The loop of \<open>cppTypeInOptional\<close> over the mapped members: a separator is pushed
  before every type but the first.
\<close>

fun pushTypes :: "Sourcelike list \<Rightarrow> Sourcelike list \<Rightarrow> Sourcelike list" where
  "pushTypes typeList [] = typeList"
| "pushTypes typeList (c # cs) =
     pushTypes ((if length typeList \<noteq> 0 then typeList @ [Text '', ''] else typeList) @ [c]) cs"

definition cppTypeInOptional :: "string \<Rightarrow> Type list \<Rightarrow> bool \<Rightarrow> bool \<Rightarrow> Sourcelike" where
  "cppTypeInOptional ns nonNulls inJsonNamespace withIssues =
     (case nonNulls of
        [t] \<Rightarrow> cppType ns t inJsonNamespace withIssues
      | _ \<Rightarrow>
         Parts [Text ''boost::variant<'',
                Parts (pushTypes [] (map (\<lambda>t. cppType ns t inJsonNamespace withIssues) nonNulls)),
                Text ''>''])"

definition variantType :: "string \<Rightarrow> Type \<Rightarrow> bool \<Rightarrow> error + Sourcelike" where
  "variantType ns u inJsonNamespace =
     (case removeNullFromUnion u of
        (hasNull, nonNulls) \<Rightarrow>
          if length nonNulls < 2 then Inl (Thrown ''Variant not needed for less than two types.'')
          else
            (let variant = cppTypeInOptional ns nonNulls inJsonNamespace True
             in if \<not> hasNull then Inr variant
                else Inr (Parts [Text ''boost::optional<'', variant, Text ''>''])))"

text \<open>
  \<open>emitUnionTypedefs\<close>: the arguments of \<open>emitLine\<close> are evaluated first, so a throw of
  \<open>variantType\<close> leaves nothing emitted.
\<close>

definition emitUnionTypedefs :: "string \<Rightarrow> Type \<Rightarrow> Name \<Rightarrow> error + Emitted" where
  "emitUnionTypedefs ns u unionName =
     (case variantType ns u False of
        Inl err \<Rightarrow> Inl err
      | Inr v \<Rightarrow> Inr (emitLine [Text ''typedef '', v, Text '' '', NameToken unionName, Text '';'']))"

text \<open>
  Modelled from the spec: \<open>forEachProperty\<close> of ConvenienceRenderer, which is not among
  the sources. It visits the properties of a class in declared order and, with the blank
  line location \<open>none\<close>, emits nothing of its own. The state \<open>'s\<close> is what the callback
  changes: the lines emitted so far, or a local variable of the caller.
\<close>

definition forEachProperty :: "Type \<Rightarrow> (Name \<Rightarrow> string \<Rightarrow> Type \<Rightarrow> 's \<Rightarrow> 's) \<Rightarrow> 's \<Rightarrow> 's" where
  "forEachProperty c f s = fold (\<lambda>p. f (fst p) (fst (snd p)) (snd (snd p))) (properties c) s"

text \<open>
  The two callbacks of \<open>emitClassFunctions\<close>: \<open>readProperty\<close> emits the read of one
  property in \<open>from_json\<close>, \<open>pushArg\<close> pushes one key/value pair onto \<open>args\<close> in
  \<open>to_json\<close>. \<open>utf16StringEscape\<close> of Support is not among the sources and is a
  parameter.
\<close>

definition readProperty :: "(string \<Rightarrow> string) \<Rightarrow> string \<Rightarrow> Name \<Rightarrow> string \<Rightarrow> Type \<Rightarrow> Emitted" where
  \<open>readProperty utf16StringEscape ns propertyName json t =
     (if kind t = ''union'' \<and> fst (removeNullFromUnion t) then
        emitLine [Text ''_x.'', NameToken propertyName, Text '' = '', ourQualifier ns True,
                  Text ''get_optional<'', cppTypeInOptional ns (snd (removeNullFromUnion t)) True False,
                  Text ''>(_j, "'', Text (utf16StringEscape json), Text ''");'']
      else if kind t = ''null'' \<or> kind t = ''any'' then
        emitLine [Text ''_x.'', NameToken propertyName, Text '' = '', ourQualifier ns True,
                  Text ''get_untyped(_j, "'', Text (utf16StringEscape json), Text ''");'']
      else
        emitLine [Text ''_x.'', NameToken propertyName, Text '' = _j.at("'', Text (utf16StringEscape json),
                  Text ''").get<'', cppType ns t True False, Text ''>();''])\<close>

definition pushArg :: "(string \<Rightarrow> string) \<Rightarrow> Name \<Rightarrow> string \<Rightarrow> Type \<Rightarrow> Sourcelike list \<Rightarrow> Sourcelike list" where
  \<open>pushArg utf16StringEscape propertyName json t args =
     (if length args \<noteq> 0 then args @ [Text '', ''] else args) @
     [Text ''{"'', Text (utf16StringEscape json), Text ''", _x.'', NameToken propertyName, Text ''}'']\<close>

definition emitClassFunctions :: "(string \<Rightarrow> string) \<Rightarrow> string \<Rightarrow> Type \<Rightarrow> Name \<Rightarrow> Emitted" where
  "emitClassFunctions utf16StringEscape ns c className =
     emitBlock
       (Parts [Text ''void from_json(const json& _j, struct '', ourQualifier ns True, NameToken className,
               Text ''& _x)''])
       False
       (forEachProperty c (\<lambda>propertyName json t out. out @ readProperty utf16StringEscape ns propertyName json t) [])
     @ emitNewline
     @ emitBlock
       (Parts [Text ''void to_json(json& _j, const struct '', ourQualifier ns True, NameToken className,
               Text ''& _x)''])
       False
       (if properties c = [] then emitLine [Text ''_j = json::object();'']
        else emitLine [Text ''_j = json{'', Parts (forEachProperty c (pushArg utf16StringEscape) []),
                       Text ''};''])"

definition functionForKind :: "(string \<times> string) list" where
  "functionForKind =
     [(''bool'', ''is_boolean''),
      (''integer'', ''is_number_integer''),
      (''double'', ''is_number''),
      (''string'', ''is_string''),
      (''class'', ''is_object''),
      (''map'', ''is_object''),
      (''array'', ''is_array'')]"

text \<open>
  The loop of \<open>from_json\<close> over \<open>functionForKind\<close>, with its variable \<open>onFirst\<close>: a
  kind that no member has is skipped, otherwise the branch is bound to the first member of
  that kind.
\<close>

fun emitBranches :: "string \<Rightarrow> Type list \<Rightarrow> (string \<times> string) list \<Rightarrow> bool \<Rightarrow> Emitted" where
  "emitBranches ns nonNulls [] onFirst = []"
| "emitBranches ns nonNulls (kf # rest) onFirst =
     (case List.find (\<lambda>t. kind t = fst kf) nonNulls of
        None \<Rightarrow> emitBranches ns nonNulls rest onFirst
      | Some t \<Rightarrow>
          emitLine [Text (if onFirst then ''if'' else ''else if''), Text '' (_j.'', Text (snd kf), Text ''())'']
          @ indent (emitLine [Text ''_x = _j.get<'', cppType ns t True False, Text ''>();''])
          @ emitBranches ns nonNulls rest False)"

text \<open>\<open>i.toString()\<close>: the decimal digits of a natural number.\<close>

function toString :: "nat \<Rightarrow> string" where
  "toString n =
     (if n < 10 then [''0123456789'' ! n]
      else toString (n div 10) @ [''0123456789'' ! (n mod 10)])"
  by pat_completeness auto
termination
  by (relation "measure id") auto

declare toString.simps [simp del]

text \<open>The loop of \<open>to_json\<close> over the non-null members, with its counter \<open>i\<close>.\<close>

fun emitCases :: "string \<Rightarrow> Type list \<Rightarrow> nat \<Rightarrow> Emitted" where
  "emitCases ns [] i = []"
| "emitCases ns (t # ts) i =
     emitLine [Text ''case '', Text (toString i), Text '':'']
     @ indent (emitLine [Text ''_j = boost::get<'', cppType ns t True False, Text ''>(_x);'']
               @ emitLine [Text ''break;''])
     @ emitCases ns ts (i + 1)"

definition emitUnionFunctions :: "string \<Rightarrow> Type \<Rightarrow> Emitted" where
  \<open>emitUnionFunctions ns u =
     (let nonNulls = snd (removeNullFromUnion u);
          variantType = cppTypeInOptional ns nonNulls True False
      in emitBlock (Parts [Text ''void from_json(const json& _j, '', variantType, Text ''& _x)'']) False
           (emitBranches ns nonNulls functionForKind True
            @ emitLine [Text ''else throw "Could not deserialize";''])
         @ emitNewline
         @ emitBlock (Parts [Text ''void to_json(json& _j, const '', variantType, Text ''& _x)'']) False
             (emitBlock (Text ''switch (_x.which())'') False
                (emitCases ns nonNulls 0
                 @ emitLine [Text ''default: throw "This should not happen";''])))\<close>

subsection \<open>The emitted code, structured\<close>

text \<open>
  The definitions of this subsection do not come from the source. They describe what the
  emitters produce, and the theorems below prove that the emitters produce exactly that.
  \<open>intersperse\<close> puts a separator between the elements of a list.
\<close>

fun intersperse :: "'a \<Rightarrow> 'a list \<Rightarrow> 'a list" where
  "intersperse sep [] = []"
| "intersperse sep [x] = [x]"
| "intersperse sep (x # y # ys) = x # sep # intersperse sep (y # ys)"

text \<open>
  The branches that the loop of \<open>from_json\<close> emits, as pairs of the predicate called and
  the member decoded (\<open>fromJsonBranches\<close>), the lines they are printed as
  (\<open>renderBranches\<close>), and the first member of a kind (\<open>firstOfKind\<close>).
\<close>

definition fromJsonBranches :: "Type list \<Rightarrow> (string \<times> string) list \<Rightarrow> (string \<times> Type) list" where
  "fromJsonBranches nonNulls table =
     List.map_filter
       (\<lambda>kf. map_option (\<lambda>t. (snd kf, t)) (List.find (\<lambda>t. kind t = fst kf) nonNulls)) table"

fun renderBranches :: "string \<Rightarrow> (string \<times> Type) list \<Rightarrow> bool \<Rightarrow> Emitted" where
  "renderBranches ns [] onFirst = []"
| "renderBranches ns (b # bs) onFirst =
     [(0, Parts [Text (if onFirst then ''if'' else ''else if''), Text '' (_j.'', Text (fst b), Text ''())'']),
      (1, Parts [Text ''_x = _j.get<'', cppType ns (snd b) True False, Text ''>();''])]
     @ renderBranches ns bs False"

definition firstOfKind :: "string \<Rightarrow> Type list \<Rightarrow> Type option" where
  "firstOfKind k ts = List.find (\<lambda>t. kind t = k) ts"

text \<open>
  The read that \<open>readProperty\<close> emits for a property, by its type (\<open>propertyRead\<close>, with
  the conditions of the source in their order), and the line it is printed as
  (\<open>renderRead\<close>).
\<close>

datatype Read = GetOptional Sourcelike | GetUntyped | AtGet Sourcelike

definition propertyRead :: "string \<Rightarrow> Type \<Rightarrow> Read" where
  "propertyRead ns t =
     (if kind t = ''union'' \<and> fst (removeNullFromUnion t)
      then GetOptional (cppTypeInOptional ns (snd (removeNullFromUnion t)) True False)
      else if kind t = ''null'' \<or> kind t = ''any'' then GetUntyped
      else AtGet (cppType ns t True False))"

fun renderRead :: "(string \<Rightarrow> string) \<Rightarrow> string \<Rightarrow> Name \<Rightarrow> string \<Rightarrow> Read \<Rightarrow> Sourcelike list" where
  \<open>renderRead utf16StringEscape ns propertyName json (GetOptional T) =
     [Text ''_x.'', NameToken propertyName, Text '' = '', ourQualifier ns True,
      Text ''get_optional<'', T, Text ''>(_j, "'', Text (utf16StringEscape json), Text ''");'']\<close>
| \<open>renderRead utf16StringEscape ns propertyName json GetUntyped =
     [Text ''_x.'', NameToken propertyName, Text '' = '', ourQualifier ns True,
      Text ''get_untyped(_j, "'', Text (utf16StringEscape json), Text ''");'']\<close>
| \<open>renderRead utf16StringEscape ns propertyName json (AtGet T) =
     [Text ''_x.'', NameToken propertyName, Text '' = _j.at("'', Text (utf16StringEscape json),
      Text ''").get<'', T, Text ''>();'']\<close>

subsection \<open>The emitted code at run time\<close>

text \<open>
  What the emitted C++ does with a JSON value. The value is a \<open>nlohmann::json\<close>; the
  library is not part of the repository, and its type predicates, \<open>find\<close> and \<open>at\<close> are
  modelled as it documents them: \<open>is_number_integer\<close> holds of signed and unsigned
  integers, \<open>is_number\<close> of every number, \<open>find\<close> finds nothing in a value that is not an
  object, \<open>at\<close> throws \<open>out_of_range\<close> on a missing key and \<open>type_error\<close> on a value that
  is not an object. The contents of a floating-point number (a mantissa and an exponent)
  play no part.
\<close>

datatype json =
    JNull
  | JBoolean bool
  | JNumberInteger int
  | JNumberUnsigned nat
  | JNumberFloat int int
  | JString string
  | JObject "(string \<times> json) list"
  | JArray "json list"

fun is_boolean :: "json \<Rightarrow> bool" where
  "is_boolean (JBoolean _) = True"
| "is_boolean _ = False"

fun is_number_integer :: "json \<Rightarrow> bool" where
  "is_number_integer (JNumberInteger _) = True"
| "is_number_integer (JNumberUnsigned _) = True"
| "is_number_integer _ = False"

fun is_number :: "json \<Rightarrow> bool" where
  "is_number (JNumberInteger _) = True"
| "is_number (JNumberUnsigned _) = True"
| "is_number (JNumberFloat _ _) = True"
| "is_number _ = False"

fun is_string :: "json \<Rightarrow> bool" where
  "is_string (JString _) = True"
| "is_string _ = False"

fun is_object :: "json \<Rightarrow> bool" where
  "is_object (JObject _) = True"
| "is_object _ = False"

fun is_array :: "json \<Rightarrow> bool" where
  "is_array (JArray _) = True"
| "is_array _ = False"

fun is_null :: "json \<Rightarrow> bool" where
  "is_null JNull = True"
| "is_null _ = False"

text \<open>The predicate that a name of \<open>functionForKind\<close> calls.\<close>

definition jsonPredicate :: "string \<Rightarrow> json \<Rightarrow> bool" where
  "jsonPredicate func j =
     (if func = ''is_boolean'' then is_boolean j
      else if func = ''is_number_integer'' then is_number_integer j
      else if func = ''is_number'' then is_number j
      else if func = ''is_string'' then is_string j
      else if func = ''is_object'' then is_object j
      else if func = ''is_array'' then is_array j
      else False)"

text \<open>
  The emitted \<open>from_json\<close> of a union is a chain \<open>if (p1) ... else if (p2) ... else
  throw\<close>: the conditions are tested in order, the first that holds selects the member
  that is decoded, and when none holds the final \<open>else\<close> throws. \<open>runFromJson\<close> returns
  the member selected. (With no branch at all the emitted text is a lone \<open>else\<close>; the
  model lets it throw.) \<open>selected\<close> and \<open>orElse\<close> word its result.
\<close>

fun runFromJson :: "(string \<times> Type) list \<Rightarrow> json \<Rightarrow> error + Type" where
  "runFromJson [] j = Inl (Thrown ''Could not deserialize'')"
| "runFromJson (b # bs) j = (if jsonPredicate (fst b) j then Inr (snd b) else runFromJson bs j)"

definition orElse :: "'a option \<Rightarrow> 'a option \<Rightarrow> 'a option" where
  "orElse a b = (case a of None \<Rightarrow> b | Some x \<Rightarrow> Some x)"

definition selected :: "Type option \<Rightarrow> error + Type" where
  "selected r = (case r of None \<Rightarrow> Inl (Thrown ''Could not deserialize'') | Some t \<Rightarrow> Inr t)"

text \<open>
  The reads of a class's \<open>from_json\<close>. \<open>get_untyped\<close> and \<open>get_optional\<close> follow the
  C++ text that \<open>emitSourceStructure\<close> emits for them, and \<open>optional_from_json\<close> the
  \<open>adl_serializer\<close> of \<open>emitOptionalHelpers\<close>; \<open>at_get\<close> is \<open>_j.at(key).get<T>()\<close>. The
  conversion \<open>get<T>()\<close> of a value to the C++ type \<open>T\<close> is the parameter \<open>get\<close>, which
  returns the converted value or throws. A thrown exception ends \<open>from_json\<close>
  (\<open>runClassFromJson\<close>), which then returns no record.
\<close>

definition jsonFind :: "json \<Rightarrow> string \<Rightarrow> json option" where
  "jsonFind j key = (case j of JObject kvs \<Rightarrow> map_of kvs key | _ \<Rightarrow> None)"

definition jsonAt :: "json \<Rightarrow> string \<Rightarrow> error + json" where
  "jsonAt j key =
     (case j of
        JObject kvs \<Rightarrow>
          (case map_of kvs key of None \<Rightarrow> Inl (Thrown ''out_of_range'') | Some v \<Rightarrow> Inr v)
      | _ \<Rightarrow> Inl (Thrown ''type_error''))"

definition get_untyped :: "json \<Rightarrow> string \<Rightarrow> error + json" where
  "get_untyped j property = (if jsonFind j property \<noteq> None then jsonAt j property else Inr JNull)"

definition optional_from_json :: "(json \<Rightarrow> error + 'a) \<Rightarrow> json \<Rightarrow> error + 'a option" where
  "optional_from_json get j = (if is_null j then Inr None else map_sum id Some (get j))"

definition get_optional :: "(json \<Rightarrow> error + 'a) \<Rightarrow> json \<Rightarrow> string \<Rightarrow> error + 'a option" where
  "get_optional get j property =
     (if jsonFind j property \<noteq> None
      then (case jsonAt j property of Inl err \<Rightarrow> Inl err | Inr v \<Rightarrow> optional_from_json get v)
      else Inr None)"

definition at_get :: "(json \<Rightarrow> error + 'a) \<Rightarrow> json \<Rightarrow> string \<Rightarrow> error + 'a" where
  "at_get get j key = (case jsonAt j key of Inl err \<Rightarrow> Inl err | Inr v \<Rightarrow> get v)"

datatype 'a Field = UntypedField json | OptionalField "'a option" | StrictField 'a

fun execRead :: "(Sourcelike \<Rightarrow> json \<Rightarrow> error + 'a) \<Rightarrow> json \<Rightarrow> string \<Rightarrow> Read \<Rightarrow> error + 'a Field" where
  "execRead get j key (GetOptional T) = map_sum id OptionalField (get_optional (get T) j key)"
| "execRead get j key GetUntyped = map_sum id UntypedField (get_untyped j key)"
| "execRead get j key (AtGet T) = map_sum id StrictField (at_get (get T) j key)"

fun runClassFromJson ::
  "(Sourcelike \<Rightarrow> json \<Rightarrow> error + 'a) \<Rightarrow> string \<Rightarrow> (Name \<times> string \<times> Type) list \<Rightarrow> json \<Rightarrow>
   error + 'a Field list" where
  "runClassFromJson get ns [] j = Inr []"
| "runClassFromJson get ns (p # ps) j =
     (case execRead get j (fst (snd p)) (propertyRead ns (snd (snd p))) of
        Inl err \<Rightarrow> Inl err
      | Inr f \<Rightarrow>
          (case runClassFromJson get ns ps j of
             Inl err \<Rightarrow> Inl err
           | Inr fs \<Rightarrow> Inr (f # fs)))"

section \<open>Properties of the type attributes\<close>

lemma sameKey_iff: "sameKey k k' \<longleftrightarrow> name k = name k'"
  by (simp add: sameKey_def equals_def)

lemma mapFind_None_iff: "mapFind a k = None \<longleftrightarrow> name k \<notin> (\<lambda>e. name (fst e)) ` set a"
  by (induction a) (auto simp: sameKey_iff)

lemma mapFind_SomeD: "mapFind a k = Some e \<Longrightarrow> e \<in> set a \<and> name (fst e) = name k"
  by (induction a) (auto simp: sameKey_iff split: if_splits)

lemma mapFind_cong_name: "name k = name k' \<Longrightarrow> mapFind a k = mapFind a k'"
  by (induction a) (auto simp: sameKey_iff)

lemma mapGet_mapSet: "mapGet (mapSet m k v) k' = (if name k = name k' then Some v else mapGet m k')"
  by (induction m) (auto simp: mapGet_def sameKey_iff)

lemma mapGet_mergeEntry_other:
  assumes "mergeEntry (\<lambda>aa ab kind. combine kind aa ab) m e = Inr m'" and "name (fst e) \<noteq> name k"
  shows "mapGet m' k = mapGet m k"
proof (cases "mapGet m (fst e)")
  case None
  then show ?thesis using assms by (auto simp: mergeEntry_def mapGet_mapSet)
next
  case (Some a)
  then show ?thesis using assms
    by (cases "combine (fst e) a (snd e)") (auto simp: mergeEntry_def mapGet_mapSet)
qed

lemma combineAcross_one:
  "combineAcross k acc (b # bs) =
     (case combineAcross k acc [b] of Inl err \<Rightarrow> Inl err | Inr acc' \<Rightarrow> combineAcross k acc' bs)"
  by (auto split: option.splits sum.splits)

lemma mergeEntry_step:
  assumes "mergeEntry (\<lambda>aa ab kind. combine kind aa ab) m e = Inr m1" and "name (fst e) = name k"
  shows "(case mapGet m k of
            None \<Rightarrow> Inr (Some (snd e))
          | Some a \<Rightarrow> (case combine (fst e) a (snd e) of Inl err \<Rightarrow> Inl err | Inr v \<Rightarrow> Inr (Some v)))
         = Inr (mapGet m1 k)"
proof -
  have g: "mapGet m (fst e) = mapGet m k"
    using mapFind_cong_name [OF assms(2), of m] by (simp add: mapGet_def)
  have s: "mapGet (mapSet m (fst e) v) k = Some v" for v
    using assms(2) by (simp add: mapGet_mapSet)
  show ?thesis
  proof (cases "mapGet m k")
    case None
    then have "m1 = mapSet m (fst e) (snd e)"
      using assms(1) g by (simp add: mergeEntry_def)
    then show ?thesis using None s by simp
  next
    case (Some a)
    show ?thesis
    proof (cases "combine (fst e) a (snd e)")
      case (Inl err)
      then show ?thesis using assms(1) g Some by (simp add: mergeEntry_def)
    next
      case (Inr v)
      then have "m1 = mapSet m (fst e) v"
        using assms(1) g Some by (simp add: mergeEntry_def)
      then show ?thesis using Some Inr s by simp
    qed
  qed
qed

lemma mergeEntries_value:
  "wellFormed b \<Longrightarrow> mergeEntries (\<lambda>aa ab kind. combine kind aa ab) m b = Inr m' \<Longrightarrow>
   combineAcross k (mapGet m k) [b] = Inr (mapGet m' k)"
proof (induction b arbitrary: m)
  case Nil
  then show ?case by simp
next
  case (Cons e es)
  from Cons.prems(2) obtain m1 where
    m1: "mergeEntry (\<lambda>aa ab kind. combine kind aa ab) m e = Inr m1"
    and rest: "mergeEntries (\<lambda>aa ab kind. combine kind aa ab) m1 es = Inr m'"
    by (auto split: sum.splits)
  from Cons.prems(1) have wf: "wellFormed es" and fresh: "name (fst e) \<notin> (\<lambda>e. name (fst e)) ` set es"
    by (auto simp: wellFormed_def)
  have ih: "combineAcross k (mapGet m1 k) [es] = Inr (mapGet m' k)"
    using Cons.IH [OF wf rest] .
  show ?case
  proof (cases "name (fst e) = name k")
    case True
    then have none: "mapFind es k = None"
      using fresh by (simp add: mapFind_None_iff)
    have eq: "mapGet m' k = mapGet m1 k"
      using ih none by simp
    have sk: "sameKey k (fst e)" using True by (simp add: sameKey_iff)
    have "combineAcross k (mapGet m k) [e # es] =
        (case mapGet m k of
            None \<Rightarrow> Inr (Some (snd e))
          | Some a \<Rightarrow> (case combine (fst e) a (snd e) of Inl err \<Rightarrow> Inl err | Inr v \<Rightarrow> Inr (Some v)))"
      using sk by (simp split: option.splits sum.splits)
    then show ?thesis
      using mergeEntry_step [OF m1 True] eq by simp
  next
    case False
    then have "\<not> sameKey k (fst e)" by (auto simp: sameKey_iff)
    moreover have "mapGet m1 k = mapGet m k"
      using mapGet_mergeEntry_other [OF m1 False] .
    ultimately show ?thesis using ih by simp
  qed
qed

lemma mergeEntries_error:
  "wellFormed b \<Longrightarrow> mergeEntries (\<lambda>aa ab kind. combine kind aa ab) m b = Inl err \<Longrightarrow>
   \<exists>k. combineAcross k (mapGet m k) [b] = Inl err"
proof (induction b arbitrary: m)
  case Nil
  then show ?case by simp
next
  case (Cons e es)
  from Cons.prems(1) have wf: "wellFormed es" and fresh: "name (fst e) \<notin> (\<lambda>e. name (fst e)) ` set es"
    by (auto simp: wellFormed_def)
  show ?case
  proof (cases "mergeEntry (\<lambda>aa ab kind. combine kind aa ab) m e")
    case (Inl x)
    then have "x = err" using Cons.prems(2) by simp
    with Inl have "combineAcross (fst e) (mapGet m (fst e)) [e # es] = Inl err"
      by (auto simp: mergeEntry_def sameKey_iff split: option.splits sum.splits)
    then show ?thesis by blast
  next
    case (Inr m1)
    with Cons.prems(2) have rest: "mergeEntries (\<lambda>aa ab kind. combine kind aa ab) m1 es = Inl err"
      by simp
    from Cons.IH [OF wf rest] obtain k where k: "combineAcross k (mapGet m1 k) [es] = Inl err"
      by blast
    then obtain e' where e': "mapFind es k = Some e'"
      by (cases "mapFind es k") auto
    from mapFind_SomeD [OF e'] fresh have ne: "name (fst e) \<noteq> name k"
      by force
    then have "\<not> sameKey k (fst e)" by (auto simp: sameKey_iff)
    moreover have "mapGet m1 k = mapGet m k"
      using mapGet_mergeEntry_other [OF Inr ne] .
    ultimately have "combineAcross k (mapGet m k) [e # es] = Inl err"
      using k by simp
    then show ?thesis by blast
  qed
qed

lemma mergeWith_value:
  "\<forall>b\<in>set bs. wellFormed b \<Longrightarrow> mergeWith (\<lambda>aa ab kind. combine kind aa ab) m bs = Inr m' \<Longrightarrow>
   combineAcross k (mapGet m k) bs = Inr (mapGet m' k)"
proof (induction bs arbitrary: m)
  case Nil
  then show ?case by simp
next
  case (Cons b bs)
  from Cons.prems(2) obtain m1 where
    m1: "mergeEntries (\<lambda>aa ab kind. combine kind aa ab) m b = Inr m1"
    and rest: "mergeWith (\<lambda>aa ab kind. combine kind aa ab) m1 bs = Inr m'"
    by (auto split: sum.splits)
  have one: "combineAcross k (mapGet m k) [b] = Inr (mapGet m1 k)"
    using mergeEntries_value [OF _ m1] Cons.prems(1) by simp
  have "combineAcross k (mapGet m1 k) bs = Inr (mapGet m' k)"
    using Cons.IH [OF _ rest] Cons.prems(1) by simp
  then show ?case
    using one by (subst combineAcross_one) simp
qed

lemma combineAcross_error_sticky:
  "combineAcross k acc [b] = Inl err \<Longrightarrow> combineAcross k acc (b # bs) = Inl err"
  by (subst combineAcross_one) simp

lemma mergeWith_error:
  "\<forall>b\<in>set bs. wellFormed b \<Longrightarrow> mergeWith (\<lambda>aa ab kind. combine kind aa ab) m bs = Inl err \<Longrightarrow>
   \<exists>k. combineAcross k (mapGet m k) bs = Inl err"
proof (induction bs arbitrary: m)
  case Nil
  then show ?case by simp
next
  case (Cons b bs)
  show ?case
  proof (cases "mergeEntries (\<lambda>aa ab kind. combine kind aa ab) m b")
    case (Inl x)
    then have "x = err" using Cons.prems(2) by simp
    with Inl mergeEntries_error [of b m err] Cons.prems(1)
    obtain k where "combineAcross k (mapGet m k) [b] = Inl err" by auto
    then show ?thesis using combineAcross_error_sticky by blast
  next
    case (Inr m1)
    with Cons.prems(2) have rest: "mergeWith (\<lambda>aa ab kind. combine kind aa ab) m1 bs = Inl err"
      by simp
    from Cons.IH [OF _ rest] Cons.prems(1) obtain k where
      k: "combineAcross k (mapGet m1 k) bs = Inl err" by auto
    have one: "combineAcross k (mapGet m k) [b] = Inr (mapGet m1 k)"
      using mergeEntries_value [OF _ Inr] Cons.prems(1) by simp
    have "combineAcross k (mapGet m k) (b # bs) = Inl err"
      using one k by (subst combineAcross_one) simp
    then show ?thesis by blast
  qed
qed

lemma combineAcross_first: "combineAcross k None (a # bs) = combineAcross k (mapGet a k) bs"
  by (cases "mapFind a k") (auto simp: mapGet_def)

lemma combineAcross_Some:
  "combineAcross k (Some a) bags = map_sum id Some (foldCombine a (presentEntries k bags))"
proof (induction bags arbitrary: a)
  case Nil
  then show ?case by (simp add: presentEntries_def List.map_filter_simps)
next
  case (Cons b bs)
  then show ?case
    by (cases "mapFind b k")
       (auto simp: presentEntries_def List.map_filter_simps split: sum.splits)
qed

lemma combineAcross_None: "combineAcross k None bags = combinedValue k bags"
proof (induction bags)
  case Nil
  then show ?case by (simp add: combinedValue_def presentEntries_def List.map_filter_simps)
next
  case (Cons b bs)
  show ?case
  proof (cases "mapFind b k")
    case None
    then show ?thesis using Cons
      by (simp add: combinedValue_def presentEntries_def List.map_filter_simps)
  next
    case (Some e)
    then show ?thesis
      using combineAcross_Some [of k "snd e" bs]
      by (simp add: combinedValue_def presentEntries_def List.map_filter_simps)
  qed
qed

lemma combineTypeAttributes_value:
  assumes "\<forall>a\<in>set bags. wellFormed a" and "combineTypeAttributes bags = Inr r"
  shows "combinedValue k bags = Inr (tryGetInAttributes k r)"
proof (cases bags)
  case Nil
  then show ?thesis using assms(2)
    by (auto simp: combineTypeAttributes_def combinedValue_def presentEntries_def
        List.map_filter_simps tryGetInAttributes_def mapGet_def)
next
  case (Cons first rest)
  then have m: "mergeWith (\<lambda>aa ab kind. combine kind aa ab) first rest = Inr r"
    using assms(2) by (simp add: combineTypeAttributes_def)
  have "\<forall>b\<in>set rest. wellFormed b" using assms(1) Cons by simp
  from mergeWith_value [OF this m, of k]
  have "combineAcross k None (first # rest) = Inr (mapGet r k)"
    by (simp only: combineAcross_first)
  then show ?thesis
    by (simp only: Cons combineAcross_None tryGetInAttributes_def)
qed

lemma combineTypeAttributes_error:
  assumes "\<forall>a\<in>set bags. wellFormed a" and "combineTypeAttributes bags = Inl err"
  shows "\<exists>k. combinedValue k bags = Inl err"
proof (cases bags)
  case Nil
  then show ?thesis using assms(2) by (simp add: combineTypeAttributes_def)
next
  case (Cons first rest)
  then have m: "mergeWith (\<lambda>aa ab kind. combine kind aa ab) first rest = Inl err"
    using assms(2) by (simp add: combineTypeAttributes_def)
  have "\<forall>b\<in>set rest. wellFormed b" using assms(1) Cons by simp
  from mergeWith_error [OF this m] obtain k where
    "combineAcross k (mapGet first k) rest = Inl err" by blast
  then have "combineAcross k None (first # rest) = Inl err"
    by (simp only: combineAcross_first)
  then have "combinedValue k bags = Inl err"
    by (simp only: Cons combineAcross_None)
  then show ?thesis by blast
qed

lemma presentEntries_holders:
  "presentEntries k bags = map (\<lambda>b. the (mapFind b k)) (holders k bags)"
  by (induction bags)
     (auto simp: presentEntries_def holders_def List.map_filter_simps tryGetInAttributes_def
        mapGet_def split: option.splits)

lemma holders_present: "b \<in> set (holders k bags) \<Longrightarrow> \<exists>e. mapFind b k = Some e \<and> b \<in> set bags"
  by (auto simp: holders_def tryGetInAttributes_def mapGet_def)

lemma combinedValue_single:
  assumes "holders k bags = [b]"
  shows "combinedValue k bags = Inr (tryGetInAttributes k b)"
proof -
  have "b \<in> set (holders k bags)" using assms by simp
  from holders_present [OF this] obtain e where e: "mapFind b k = Some e" by blast
  then show ?thesis
    using assms by (simp add: combinedValue_def presentEntries_holders tryGetInAttributes_def mapGet_def)
qed

subsection \<open>The claims on the type attributes\<close>

text \<open>
  C1. \<open>combineTypeAttributes\<close> is a left-fold union. For bags that are well-formed Maps:
  the empty sequence yields the empty bag; a one-element sequence yields that bag unchanged;
  when the call returns a bag, the value it holds under every kind is the result of
  repeatedly applying the kind's combine function across the values present, in input
  order, and a kind that exactly one bag holds keeps that bag's value; when the call
  throws, the error is the one that this fold meets for some kind.
\<close>

theorem combineTypeAttributes_left_fold:
  assumes "\<forall>a\<in>set bags. wellFormed a"
  shows "combineTypeAttributes [] = Inr emptyTypeAttributes \<and>
         combineTypeAttributes [a] = Inr a \<and>
         (\<forall>r. combineTypeAttributes bags = Inr r \<longrightarrow>
            (\<forall>k. combinedValue k bags = Inr (tryGetInAttributes k r)) \<and>
            (\<forall>k b. holders k bags = [b] \<longrightarrow> tryGetInAttributes k r = tryGetInAttributes k b)) \<and>
         (\<forall>err. combineTypeAttributes bags = Inl err \<longrightarrow> (\<exists>k. combinedValue k bags = Inl err))"
proof -
  have e: "combineTypeAttributes [] = Inr emptyTypeAttributes"
    by (simp add: combineTypeAttributes_def emptyTypeAttributes_def)
  have s: "combineTypeAttributes [a] = Inr a"
    by (simp add: combineTypeAttributes_def)
  have v: "combinedValue k bags = Inr (tryGetInAttributes k r)"
    if "combineTypeAttributes bags = Inr r" for r k
    using combineTypeAttributes_value [OF assms that] .
  have p: "tryGetInAttributes k r = tryGetInAttributes k b"
    if "combineTypeAttributes bags = Inr r" and "holders k bags = [b]" for r k b
    using v [OF that(1), of k] combinedValue_single [OF that(2)] by simp
  have f: "\<exists>k. combinedValue k bags = Inl err"
    if "combineTypeAttributes bags = Inl err" for err
    using combineTypeAttributes_error [OF assms that] .
  show ?thesis using e s v p f by blast
qed

lemma combine_uncombinable: "combine (newTypeAttributeKind n None) x y = Inl (Panic (''Cannot combine type attribute '' @ n))"
  by (simp add: newTypeAttributeKind_def)

lemma name_newTypeAttributeKind: "name (newTypeAttributeKind n c) = n"
  by (simp add: newTypeAttributeKind_def)

text \<open>
  C7. A kind created without a combine function cannot be merged: when such a kind is
  present in more than one bag, \<open>combineTypeAttributes\<close> throws and returns no bag.
\<close>

theorem uncombinable_collision_is_fatal:
  assumes wf: "\<forall>a\<in>set bags. wellFormed a"
    and keyed: "\<forall>a\<in>set bags. \<forall>e\<in>set a. name (fst e) = n \<longrightarrow> fst e = newTypeAttributeKind n None"
    and twice: "2 \<le> length (holders (newTypeAttributeKind n None) bags)"
  shows "\<exists>err. combineTypeAttributes bags = Inl err"
proof -
  let ?k = "newTypeAttributeKind n None"
  obtain b0 b1 bs where h: "holders ?k bags = b0 # b1 # bs"
    using twice by (cases "holders ?k bags" rule: list.exhaust; cases "tl (holders ?k bags)") auto
  have "b1 \<in> set (holders ?k bags)" using h by simp
  from holders_present [OF this] obtain e1 where e1: "mapFind b1 ?k = Some e1" and b1: "b1 \<in> set bags"
    by blast
  from mapFind_SomeD [OF e1] have "e1 \<in> set b1" and "name (fst e1) = n"
    by (simp_all add: name_newTypeAttributeKind)
  with keyed b1 have k1: "fst e1 = ?k" by blast
  have "combinedValue ?k bags = Inl (Panic (''Cannot combine type attribute '' @ n))"
    by (simp add: combinedValue_def presentEntries_holders h e1 k1 combine_uncombinable)
  then have "combineTypeAttributes bags \<noteq> Inr r" for r
    using combineTypeAttributes_value [OF wf, of r ?k] by auto
  then show ?thesis by (cases "combineTypeAttributes bags") auto
qed

text \<open>
  C8. \<open>setDefaultInAttributes\<close> returns the bag unchanged, without calling the
  producer, when the kind is present; otherwise it installs the producer's result,
  calling the producer once.
\<close>

theorem setDefaultInAttributes_spec:
  "(tryGetInAttributes this a \<noteq> None \<longrightarrow>
      setDefaultInAttributes this a makeDefault s = (a, s) \<and>
      fst (snd (setDefaultInAttributes this a (counted makeDefault) (0, s))) = 0) \<and>
   (tryGetInAttributes this a = None \<longrightarrow>
      setDefaultInAttributes this a makeDefault s =
        (setInAttributes this a (fst (makeDefault s)), snd (makeDefault s)) \<and>
      tryGetInAttributes this (fst (setDefaultInAttributes this a makeDefault s)) = Some (fst (makeDefault s)) \<and>
      fst (snd (setDefaultInAttributes this a (counted makeDefault) (0, s))) = 1)"
  by (auto simp: setDefaultInAttributes_def modifyInAttributes_def counted_def setInAttributes_def
      tryGetInAttributes_def mapGet_mapSet split: prod.splits)

text \<open>
  C9. Kinds are equal by name alone: \<open>equals\<close> holds between two kinds exactly when
  their names are equal, and never between a kind and another object; two kinds with equal
  names have equal hash codes and address the same entry of a bag.
\<close>

theorem kind_equality_by_name:
  "(equals k1 (KindObject k2) \<longleftrightarrow> name k1 = name k2) \<and>
   \<not> equals k1 OtherObject \<and>
   (name k1 = name k2 \<longrightarrow>
      hashCode hash k1 = hashCode hash k2 \<and>
      tryGetInAttributes k2 (setInAttributes k1 a v) = Some v \<and>
      tryGetInAttributes k2 a = tryGetInAttributes k1 a)"
  using mapFind_cong_name [of k1 k2 a]
  by (auto simp: equals_def hashCode_def tryGetInAttributes_def setInAttributes_def mapGet_mapSet
      mapGet_def [of a])

lemma name_description: "name descriptionTypeAttributeKind = ''description''"
  by (simp add: descriptionTypeAttributeKind_def newTypeAttributeKind_def)

lemma combine_description: "combine descriptionTypeAttributeKind x y = Inr (setUnion x y)"
  by (simp add: descriptionTypeAttributeKind_def newTypeAttributeKind_def)

theorem combineTypeAttributes_left_fold_witness:
  "wellFormed [(descriptionTypeAttributeKind, [''a'']), (newTypeAttributeKind ''names'' None, [''n''])] \<and>
   wellFormed [(descriptionTypeAttributeKind, [''b'', ''a''])] \<and>
   wellFormed [(descriptionTypeAttributeKind, [''c''])] \<and>
   combineTypeAttributes
     [[(descriptionTypeAttributeKind, [''a'']), (newTypeAttributeKind ''names'' None, [''n''])],
      [(descriptionTypeAttributeKind, [''b'', ''a''])],
      [(descriptionTypeAttributeKind, [''c''])]]
     = Inr [(descriptionTypeAttributeKind, [''a'', ''b'', ''c'']), (newTypeAttributeKind ''names'' None, [''n''])] \<and>
   combinedValue descriptionTypeAttributeKind
     [[(descriptionTypeAttributeKind, [''a'']), (newTypeAttributeKind ''names'' None, [''n''])],
      [(descriptionTypeAttributeKind, [''b'', ''a''])],
      [(descriptionTypeAttributeKind, [''c''])]]
     = Inr (Some [''a'', ''b'', ''c'']) \<and>
   tryGetInAttributes (newTypeAttributeKind ''names'' None)
     [(descriptionTypeAttributeKind, [''a'', ''b'', ''c'']), (newTypeAttributeKind ''names'' None, [''n''])]
     = Some [''n'']"
proof -
  let ?d = "descriptionTypeAttributeKind"
  let ?n = "newTypeAttributeKind ''names'' None :: string list TypeAttributeKind"
  let ?b1 = "[(?d, [''a'']), (?n, [''n''])]"
  let ?b2 = "[(?d, [''b'', ''a''])]"
  let ?b3 = "[(?d, [''c''])]"
  let ?r = "[(?d, [''a'', ''b'', ''c'']), (?n, [''n''])]"
  have wf1: "wellFormed ?b1" and wf2: "wellFormed ?b2" and wf3: "wellFormed ?b3"
    by (simp_all add: wellFormed_def name_description name_newTypeAttributeKind)
  then have wf: "\<forall>a\<in>set [?b1, ?b2, ?b3]. wellFormed a" by simp
  have r: "combineTypeAttributes [?b1, ?b2, ?b3] = Inr ?r"
    by (simp add: combineTypeAttributes_def mergeEntry_def mapGet_def sameKey_iff
        name_description name_newTypeAttributeKind combine_description setUnion_def)
  have h: "holders ?n [?b1, ?b2, ?b3] = [?b1]"
    by (simp add: holders_def tryGetInAttributes_def mapGet_def sameKey_iff
        name_description name_newTypeAttributeKind)
  from combineTypeAttributes_left_fold [OF wf, of "[]"] r h
  have "combinedValue ?d [?b1, ?b2, ?b3] = Inr (tryGetInAttributes ?d ?r)"
    and "tryGetInAttributes ?n ?r = tryGetInAttributes ?n ?b1"
    by blast+
  moreover have "tryGetInAttributes ?d ?r = Some [''a'', ''b'', ''c'']"
    by (simp add: tryGetInAttributes_def mapGet_def sameKey_iff name_description)
  moreover have "tryGetInAttributes ?n ?b1 = Some [''n'']"
    by (simp add: tryGetInAttributes_def mapGet_def sameKey_iff name_description name_newTypeAttributeKind)
  ultimately show ?thesis using wf1 wf2 wf3 r by simp
qed

theorem uncombinable_collision_is_fatal_witness:
  "wellFormed [(descriptionTypeAttributeKind, [''a'']), (newTypeAttributeKind ''names'' None, [''n''])] \<and>
   wellFormed [(newTypeAttributeKind ''names'' None, [''m''])] \<and>
   holders (newTypeAttributeKind ''names'' None)
     [[(descriptionTypeAttributeKind, [''a'']), (newTypeAttributeKind ''names'' None, [''n''])],
      [(newTypeAttributeKind ''names'' None, [''m''])]]
     = [[(descriptionTypeAttributeKind, [''a'']), (newTypeAttributeKind ''names'' None, [''n''])],
        [(newTypeAttributeKind ''names'' None, [''m''])]] \<and>
   (\<exists>err. combineTypeAttributes
     [[(descriptionTypeAttributeKind, [''a'']), (newTypeAttributeKind ''names'' None, [''n''])],
      [(newTypeAttributeKind ''names'' None, [''m''])]] = Inl err)"
proof -
  let ?d = "descriptionTypeAttributeKind"
  let ?n = "newTypeAttributeKind ''names'' None :: string list TypeAttributeKind"
  let ?b1 = "[(?d, [''a'']), (?n, [''n''])]"
  let ?b2 = "[(?n, [''m''])]"
  have wf1: "wellFormed ?b1" and wf2: "wellFormed ?b2"
    by (simp_all add: wellFormed_def name_description name_newTypeAttributeKind)
  then have wf: "\<forall>a\<in>set [?b1, ?b2]. wellFormed a" by simp
  have keyed: "\<forall>a\<in>set [?b1, ?b2]. \<forall>e\<in>set a. name (fst e) = ''names'' \<longrightarrow> fst e = ?n"
    by (simp add: name_description)
  have h: "holders ?n [?b1, ?b2] = [?b1, ?b2]"
    by (simp add: holders_def tryGetInAttributes_def mapGet_def sameKey_iff
        name_description name_newTypeAttributeKind)
  then have twice: "2 \<le> length (holders ?n [?b1, ?b2])" by simp
  from uncombinable_collision_is_fatal [OF wf keyed twice] wf1 wf2 h
  show ?thesis by simp
qed

theorem setDefaultInAttributes_spec_witness:
  "tryGetInAttributes descriptionTypeAttributeKind [(descriptionTypeAttributeKind, [''a''])] \<noteq> None \<and>
   setDefaultInAttributes descriptionTypeAttributeKind [(descriptionTypeAttributeKind, [''a''])]
     (\<lambda>s. ([''d''], Suc s)) (0::nat) = ([(descriptionTypeAttributeKind, [''a''])], 0) \<and>
   tryGetInAttributes descriptionTypeAttributeKind [] = None \<and>
   setDefaultInAttributes descriptionTypeAttributeKind [] (\<lambda>s. ([''d''], Suc s)) (0::nat)
     = ([(descriptionTypeAttributeKind, [''d''])], 1)"
proof -
  let ?d = "descriptionTypeAttributeKind"
  have p: "tryGetInAttributes ?d [(?d, [''a''])] \<noteq> None"
    by (simp add: tryGetInAttributes_def mapGet_def sameKey_iff)
  have a: "tryGetInAttributes ?d [] = None"
    by (simp add: tryGetInAttributes_def mapGet_def)
  from setDefaultInAttributes_spec [of ?d "[(?d, [''a''])]" "\<lambda>s. ([''d''], Suc s)" "0::nat"] p
  have 1: "setDefaultInAttributes ?d [(?d, [''a''])] (\<lambda>s. ([''d''], Suc s)) (0::nat) = ([(?d, [''a''])], 0)"
    by blast
  from setDefaultInAttributes_spec [of ?d "[]" "\<lambda>s. ([''d''], Suc s)" "0::nat"] a
  have 2: "setDefaultInAttributes ?d [] (\<lambda>s. ([''d''], Suc s)) (0::nat) = ([(?d, [''d''])], 1)"
    by (simp add: setInAttributes_def)
  show ?thesis using p a 1 2 by simp
qed

theorem kind_equality_by_name_witness:
  "name (newTypeAttributeKind ''description'' None :: string list TypeAttributeKind) = name descriptionTypeAttributeKind \<and>
   equals (newTypeAttributeKind ''description'' None) (KindObject descriptionTypeAttributeKind) \<and>
   tryGetInAttributes descriptionTypeAttributeKind
     (setInAttributes (newTypeAttributeKind ''description'' None) [] [''x'']) = Some [''x'']"
proof -
  let ?d = "descriptionTypeAttributeKind"
  let ?k = "newTypeAttributeKind ''description'' None :: string list TypeAttributeKind"
  have n: "name ?k = name ?d"
    by (simp add: name_description name_newTypeAttributeKind)
  from kind_equality_by_name [of ?k ?d length "[]" "[''x'']"] n
  show ?thesis by blast
qed

section \<open>Properties of the renderer\<close>

lemma emitBranches_render:
  "emitBranches ns nonNulls table onFirst = renderBranches ns (fromJsonBranches nonNulls table) onFirst"
  by (induction table arbitrary: onFirst)
     (auto simp: fromJsonBranches_def List.map_filter_simps emitLine_def indent_def split: option.splits)

lemma fromJsonBranches_functionForKind:
  "fromJsonBranches ts functionForKind =
     (case firstOfKind ''bool'' ts of None \<Rightarrow> [] | Some t \<Rightarrow> [(''is_boolean'', t)]) @
     (case firstOfKind ''integer'' ts of None \<Rightarrow> [] | Some t \<Rightarrow> [(''is_number_integer'', t)]) @
     (case firstOfKind ''double'' ts of None \<Rightarrow> [] | Some t \<Rightarrow> [(''is_number'', t)]) @
     (case firstOfKind ''string'' ts of None \<Rightarrow> [] | Some t \<Rightarrow> [(''is_string'', t)]) @
     (case firstOfKind ''class'' ts of None \<Rightarrow> [] | Some t \<Rightarrow> [(''is_object'', t)]) @
     (case firstOfKind ''map'' ts of None \<Rightarrow> [] | Some t \<Rightarrow> [(''is_object'', t)]) @
     (case firstOfKind ''array'' ts of None \<Rightarrow> [] | Some t \<Rightarrow> [(''is_array'', t)])"
  unfolding fromJsonBranches_def functionForKind_def firstOfKind_def
  by (simp add: List.map_filter_simps split: option.splits)

lemma runFromJson_append:
  "runFromJson (as @ bs) j =
     (case runFromJson as j of Inr t \<Rightarrow> Inr t | Inl _ \<Rightarrow> runFromJson bs j)"
  by (induction as) auto

lemma runFromJson_find:
  "runFromJson bs j =
     (case List.find (\<lambda>b. jsonPredicate (fst b) j) bs of
        None \<Rightarrow> Inl (Thrown ''Could not deserialize'')
      | Some b \<Rightarrow> Inr (snd b))"
  by (induction bs) auto

lemma runFromJson_by_value:
  "runFromJson (fromJsonBranches ts functionForKind) j =
     selected (case j of
        JNull \<Rightarrow> None
      | JBoolean _ \<Rightarrow> firstOfKind ''bool'' ts
      | JNumberInteger _ \<Rightarrow> orElse (firstOfKind ''integer'' ts) (firstOfKind ''double'' ts)
      | JNumberUnsigned _ \<Rightarrow> orElse (firstOfKind ''integer'' ts) (firstOfKind ''double'' ts)
      | JNumberFloat _ _ \<Rightarrow> firstOfKind ''double'' ts
      | JString _ \<Rightarrow> firstOfKind ''string'' ts
      | JObject _ \<Rightarrow> orElse (firstOfKind ''class'' ts) (firstOfKind ''map'' ts)
      | JArray _ \<Rightarrow> firstOfKind ''array'' ts)"
  unfolding fromJsonBranches_functionForKind runFromJson_append
  by (cases j) (simp_all add: jsonPredicate_def selected_def orElse_def split: option.splits)

lemma intersperse_Cons: "intersperse sep (x # xs) = x # concat (map (\<lambda>c. [sep, c]) xs)"
  by (induction xs arbitrary: x) auto

lemma pushTypes_nonempty:
  "acc \<noteq> [] \<Longrightarrow> pushTypes acc cs = acc @ concat (map (\<lambda>c. [Text '', '', c]) cs)"
  by (induction cs arbitrary: acc) auto

lemma pushTypes_intersperse: "pushTypes [] cs = intersperse (Text '', '') cs"
proof (cases cs)
  case Nil
  then show ?thesis by simp
next
  case (Cons c cs')
  then show ?thesis
    by (simp add: pushTypes_nonempty intersperse_Cons)
qed

lemma cppTypeInOptional_variant:
  "length nonNulls \<noteq> 1 \<Longrightarrow>
   cppTypeInOptional ns nonNulls inJ wI =
     Parts [Text ''boost::variant<'',
            Parts (intersperse (Text '', '') (map (\<lambda>t. cppType ns t inJ wI) nonNulls)),
            Text ''>'']"
  by (cases nonNulls; cases "tl nonNulls")
     (auto simp: cppTypeInOptional_def pushTypes_intersperse simp del: pushTypes.simps)

lemma removeNullFromUnion_Union:
  "removeNullFromUnion (UnionType n ms) =
     ((\<exists>t\<in>set ms. kind t = ''null''), filter (\<lambda>t. kind t \<noteq> ''null'') ms)"
  by (auto simp: removeNullFromUnion_def find_None_iff)

lemma variantType_eq:
  "variantType ns u inJ =
     (if length (snd (removeNullFromUnion u)) < 2
      then Inl (Thrown ''Variant not needed for less than two types.'')
      else Inr (let v = Parts [Text ''boost::variant<'',
                         Parts (intersperse (Text '', '')
                                  (map (\<lambda>t. cppType ns t inJ True) (snd (removeNullFromUnion u)))),
                         Text ''>'']
                in if fst (removeNullFromUnion u) then Parts [Text ''boost::optional<'', v, Text ''>'']
                   else v))"
  by (auto simp: variantType_def Let_def cppTypeInOptional_variant split: prod.splits)

subsection \<open>The claims on the renderer\<close>

text \<open>
  C2. The C++ type of a union, with \<open>nonNulls\<close> its members excluding null. With null
  and one other member it is \<open>boost::optional\<close> of the mapped member. With two or more
  non-null members it is the union's name, which \<open>emitUnionTypedefs\<close> binds to the
  \<open>boost::variant\<close> over the mapped members in their order, wrapped in
  \<open>boost::optional\<close> when null is a member. With fewer than two non-null members
  \<open>variantType\<close> throws.
\<close>

theorem union_type_mapping:
  "(let u = UnionType n ms;
        hasNull = fst (removeNullFromUnion u);
        nonNulls = snd (removeNullFromUnion u);
        variant = (\<lambda>inJ. Parts [Text ''boost::variant<'',
                     Parts (intersperse (Text '', '') (map (\<lambda>t. cppType ns t inJ True) nonNulls)),
                     Text ''>'']);
        mapped = (\<lambda>inJ. if hasNull then Parts [Text ''boost::optional<'', variant inJ, Text ''>'']
                         else variant inJ)
    in hasNull = (\<exists>t\<in>set ms. kind t = ''null'') \<and>
       nonNulls = filter (\<lambda>t. kind t \<noteq> ''null'') ms \<and>
       (\<forall>t. hasNull \<and> nonNulls = [t] \<longrightarrow>
          cppType ns u inJ wI = Parts [Text ''boost::optional<'', cppType ns t inJ wI, Text ''>'']) \<and>
       (2 \<le> length nonNulls \<longrightarrow>
          cppType ns u inJ wI = Parts [ourQualifier ns inJ, NameToken n] \<and>
          variantType ns u inJ = Inr (mapped inJ) \<and>
          emitUnionTypedefs ns u unionName =
            Inr [(0, Parts [Text ''typedef '', mapped False, Text '' '', NameToken unionName, Text '';''])]) \<and>
       (length nonNulls < 2 \<longrightarrow>
          variantType ns u inJ = Inl (Thrown ''Variant not needed for less than two types.'') \<and>
          emitUnionTypedefs ns u unionName = Inl (Thrown ''Variant not needed for less than two types.'')))"
proof -
  let ?u = "UnionType n ms"
  let ?nn = "filter (\<lambda>t. kind t \<noteq> ''null'') ms"
  have r: "removeNullFromUnion ?u = ((\<exists>t\<in>set ms. kind t = ''null''), ?nn)"
    by (rule removeNullFromUnion_Union)
  have opt: "cppType ns ?u inJ wI = Parts [Text ''boost::optional<'', cppType ns t inJ wI, Text ''>'']"
    if "\<exists>t\<in>set ms. kind t = ''null''" and "?nn = [t]" for t
    using that by (simp add: nullableFromUnion_def r)
  have named: "cppType ns ?u inJ wI = Parts [ourQualifier ns inJ, NameToken n]"
    if "2 \<le> length ?nn"
    using that by (auto simp: nullableFromUnion_def r split: list.splits)
  have v: "variantType ns ?u i =
     (if length ?nn < 2
      then Inl (Thrown ''Variant not needed for less than two types.'')
      else Inr (let v = Parts [Text ''boost::variant<'',
                         Parts (intersperse (Text '', '') (map (\<lambda>t. cppType ns t i True) ?nn)),
                         Text ''>'']
                in if (\<exists>t\<in>set ms. kind t = ''null'') then Parts [Text ''boost::optional<'', v, Text ''>'']
                   else v))" for i
    using variantType_eq [of ns ?u i] by (simp only: r fst_conv snd_conv)
  show ?thesis
    unfolding Let_def r fst_conv snd_conv
    using opt named by (auto simp: v emitUnionTypedefs_def emitLine_def Let_def)
qed

lemma emitBlock_lines:
  "emitBlock line False f =
     (0, Parts [line, Text '' {'']) # map (\<lambda>l. (Suc (fst l), snd l)) f @ [(0, Parts [Text ''}''])]"
  by (simp add: emitBlock_def emitLine_def indent_def)

lemma emitCases_lines:
  "emitCases ns ts i =
     concat (map (\<lambda>k. [(0, Parts [Text ''case '', Text (toString (i + k)), Text '':'']),
                        (1, Parts [Text ''_j = boost::get<'', cppType ns (ts ! k) True False, Text ''>(_x);'']),
                        (1, Parts [Text ''break;''])]) [0..<length ts])"
proof (induction ts arbitrary: i)
  case Nil
  then show ?case by simp
next
  case (Cons t ts)
  have "[0..<length (t # ts)] = 0 # map Suc [0..<length ts]"
    by (simp add: upt_conv_Cons map_Suc_upt del: upt_Suc)
  then show ?case
    using Cons.IH [of "i + 1"]
    by (simp add: emitLine_def indent_def comp_def del: upt_Suc)
qed

text \<open>
  C5, as amended. The emitted \<open>to_json\<close> of a union switches on \<open>_x.which()\<close>; it has
  one case per non-null member, case \<open>i\<close> encoding member \<open>i\<close>, followed by a default
  case that throws. For a union without null and with two or more members, alternative
  \<open>i\<close> of the variant that the type alias names is the same member \<open>i\<close>.
\<close>

theorem union_to_json_dispatch:
  \<open>(let nonNulls = snd (removeNullFromUnion u);
        variantType = cppTypeInOptional ns nonNulls True False
    in emitUnionFunctions ns u =
         emitBlock (Parts [Text ''void from_json(const json& _j, '', variantType, Text ''& _x)'']) False
           (emitBranches ns nonNulls functionForKind True
            @ emitLine [Text ''else throw "Could not deserialize";''])
         @ emitNewline
         @ [(0, Parts [Parts [Text ''void to_json(json& _j, const '', variantType, Text ''& _x)''], Text '' {'']),
            (1, Parts [Text ''switch (_x.which())'', Text '' {''])]
         @ concat (map (\<lambda>i. [(2, Parts [Text ''case '', Text (toString i), Text '':'']),
                               (3, Parts [Text ''_j = boost::get<'', cppType ns (nonNulls ! i) True False,
                                          Text ''>(_x);'']),
                               (3, Parts [Text ''break;''])])
                     [0..<length nonNulls])
         @ [(2, Parts [Text ''default: throw "This should not happen";'']),
            (1, Parts [Text ''}'']),
            (0, Parts [Text ''}''])] \<and>
       (2 \<le> length nonNulls \<and> \<not> fst (removeNullFromUnion u) \<longrightarrow>
          emitUnionTypedefs ns u unionName =
            Inr [(0, Parts [Text ''typedef '',
                            Parts [Text ''boost::variant<'',
                                   Parts (intersperse (Text '', '')
                                            (map (\<lambda>i. cppType ns (nonNulls ! i) False True)
                                               [0..<length nonNulls])),
                                   Text ''>''],
                            Text '' '', NameToken unionName, Text '';''])]))\<close>
proof -
  let ?nn = "snd (removeNullFromUnion u)"
  have m: "map (\<lambda>i. cppType ns (?nn ! i) False True) [0..<length ?nn] = map (\<lambda>t. cppType ns t False True) ?nn"
    by (rule nth_equalityI) simp_all
  have t: "emitUnionTypedefs ns u unionName =
            Inr [(0, Parts [Text ''typedef '',
                            Parts [Text ''boost::variant<'',
                                   Parts (intersperse (Text '', '') (map (\<lambda>t. cppType ns t False True) ?nn)),
                                   Text ''>''],
                            Text '' '', NameToken unionName, Text '';''])]"
    if "2 \<le> length ?nn" and "\<not> fst (removeNullFromUnion u)"
    using that by (simp add: emitUnionTypedefs_def variantType_eq emitLine_def Let_def)
  have e: "map (\<lambda>l. (Suc (fst l), snd l))
             (map (\<lambda>l. (Suc (fst l), snd l)) (emitCases ns ?nn 0))
           = concat (map (\<lambda>i. [(2, Parts [Text ''case '', Text (toString i), Text '':'']),
                               (3, Parts [Text ''_j = boost::get<'', cppType ns (?nn ! i) True False,
                                          Text ''>(_x);'']),
                               (3, Parts [Text ''break;''])])
                     [0..<length ?nn])"
    unfolding emitCases_lines by (simp add: map_concat comp_def numeral_2_eq_2 numeral_3_eq_3)
  show ?thesis
    unfolding Let_def
    using t e by (simp add: emitUnionFunctions_def Let_def emitBlock_lines emitLine_def m)
qed

lemma readProperty_render:
  "readProperty esc ns pn json t = emitLine (renderRead esc ns pn json (propertyRead ns t))"
  by (simp add: readProperty_def propertyRead_def)

lemma forEachProperty_reads:
  "fold (\<lambda>p out. out @ readProperty esc ns (fst p) (fst (snd p)) (snd (snd p))) ps acc =
     acc @ map (\<lambda>p. (0, Parts (renderRead esc ns (fst p) (fst (snd p)) (propertyRead ns (snd (snd p)))))) ps"
  by (induction ps arbitrary: acc) (auto simp: readProperty_render emitLine_def)

lemma fold_pushArg_nonempty:
  \<open>acc \<noteq> [] \<Longrightarrow>
   fold (\<lambda>p. pushArg esc (fst p) (fst (snd p)) (snd (snd p))) ps acc =
     acc @ concat (map (\<lambda>p. [Text '', ''] @
        [Text ''{"'', Text (esc (fst (snd p))), Text ''", _x.'', NameToken (fst p), Text ''}'']) ps)\<close>
  by (induction ps arbitrary: acc) (auto simp: pushArg_def)

lemma concat_intersperse_Cons:
  "concat (intersperse sep (x # xs)) = x @ concat (map (\<lambda>g. sep @ g) xs)"
  by (induction xs arbitrary: x) auto

lemma forEachProperty_args:
  \<open>forEachProperty c (pushArg esc) [] =
     concat (intersperse [Text '', '']
       (map (\<lambda>p. [Text ''{"'', Text (esc (fst (snd p))), Text ''", _x.'', NameToken (fst p), Text ''}''])
          (properties c)))\<close>
proof (cases "properties c")
  case Nil
  then show ?thesis by (simp add: forEachProperty_def)
next
  case (Cons p ps)
  have "pushArg esc (fst p) (fst (snd p)) (snd (snd p)) [] \<noteq> []"
    by (simp add: pushArg_def)
  from fold_pushArg_nonempty [OF this, of esc ps]
  show ?thesis
    by (simp add: forEachProperty_def Cons concat_intersperse_Cons comp_def) (simp add: pushArg_def)
qed

text \<open>
  C6. The emitted \<open>to_json\<close> of a class assigns \<open>json::object()\<close> when the class has no
  property, and otherwise the object built from one pair per property, in declared order,
  of the escaped JSON key and the field.
\<close>

theorem class_to_json:
  \<open>emitClassFunctions utf16StringEscape ns c className =
     emitBlock
       (Parts [Text ''void from_json(const json& _j, struct '', ourQualifier ns True, NameToken className,
               Text ''& _x)''])
       False
       (forEachProperty c (\<lambda>propertyName json t out. out @ readProperty utf16StringEscape ns propertyName json t) [])
     @ emitNewline
     @ [(0, Parts [Parts [Text ''void to_json(json& _j, const struct '', ourQualifier ns True,
                          NameToken className, Text ''& _x)''],
                   Text '' {'']),
        (1, if properties c = [] then Parts [Text ''_j = json::object();'']
            else Parts [Text ''_j = json{'',
                        Parts (concat (intersperse [Text '', '']
                                 (map (\<lambda>p. [Text ''{"'', Text (utf16StringEscape (fst (snd p))),
                                            Text ''", _x.'', NameToken (fst p), Text ''}''])
                                    (properties c)))),
                        Text ''};'']),
        (0, Parts [Text ''}''])]\<close>
  by (simp add: emitClassFunctions_def emitBlock_lines emitLine_def forEachProperty_args)

lemma runClassFromJson_fails:
  "p \<in> set ps \<Longrightarrow> execRead get j (fst (snd p)) (propertyRead ns (snd (snd p))) = Inl err \<Longrightarrow>
   \<exists>err'. runClassFromJson get ns ps j = Inl err'"
  by (induction ps) (auto split: sum.splits)

text \<open>
  C3. The emitted \<open>from_json\<close> of a class reads every property, in declared order, by
  its escaped JSON key: through \<open>get_untyped\<close> when the type is any or null, through
  \<open>get_optional\<close> when it is a union with null, and through \<open>_j.at(...).get<T>()\<close>
  otherwise. On a missing key the first yields the null value and the second an absent
  optional, while the third throws; it also throws when the conversion fails, and a read
  that throws leaves \<open>from_json\<close> without a record.
\<close>

theorem class_from_json_reads:
  \<open>emitClassFunctions utf16StringEscape ns c className =
     [(0, Parts [Parts [Text ''void from_json(const json& _j, struct '', ourQualifier ns True,
                        NameToken className, Text ''& _x)''],
                 Text '' {''])]
     @ map (\<lambda>p. (1, Parts (renderRead utf16StringEscape ns (fst p) (fst (snd p))
                             (propertyRead ns (snd (snd p))))))
         (properties c)
     @ [(0, Parts [Text ''}''])]
     @ emitNewline
     @ emitBlock
         (Parts [Text ''void to_json(json& _j, const struct '', ourQualifier ns True, NameToken className,
                 Text ''& _x)''])
         False
         (if properties c = [] then emitLine [Text ''_j = json::object();'']
          else emitLine [Text ''_j = json{'', Parts (forEachProperty c (pushArg utf16StringEscape) []),
                         Text ''};'']) \<and>
   propertyRead ns t =
     (if kind t = ''any'' \<or> kind t = ''null'' then GetUntyped
      else if kind t = ''union'' \<and> (\<exists>m\<in>set (members t). kind m = ''null'')
      then GetOptional (cppTypeInOptional ns (filter (\<lambda>m. kind m \<noteq> ''null'') (members t)) True False)
      else AtGet (cppType ns t True False)) \<and>
   renderRead utf16StringEscape ns propertyName json GetUntyped =
     [Text ''_x.'', NameToken propertyName, Text '' = '', ourQualifier ns True,
      Text ''get_untyped(_j, "'', Text (utf16StringEscape json), Text ''");''] \<and>
   renderRead utf16StringEscape ns propertyName json (GetOptional T) =
     [Text ''_x.'', NameToken propertyName, Text '' = '', ourQualifier ns True,
      Text ''get_optional<'', T, Text ''>(_j, "'', Text (utf16StringEscape json), Text ''");''] \<and>
   renderRead utf16StringEscape ns propertyName json (AtGet T) =
     [Text ''_x.'', NameToken propertyName, Text '' = _j.at("'', Text (utf16StringEscape json),
      Text ''").get<'', T, Text ''>();''] \<and>
   (jsonFind j key = None \<longrightarrow>
      execRead get j key GetUntyped = Inr (UntypedField JNull) \<and>
      execRead get j key (GetOptional T) = Inr (OptionalField None) \<and>
      (\<exists>err. execRead get j key (AtGet T) = Inl err)) \<and>
   (\<forall>v err. jsonFind j key = Some v \<and> get T v = Inl err \<longrightarrow>
      execRead get j key (AtGet T) = Inl err) \<and>
   (\<forall>p err. p \<in> set (properties c) \<and>
        execRead get j (fst (snd p)) (propertyRead ns (snd (snd p))) = Inl err \<longrightarrow>
      (\<exists>err'. runClassFromJson get ns (properties c) j = Inl err'))\<close>
proof -
  have a: "forEachProperty c (\<lambda>propertyName json t out. out @ readProperty utf16StringEscape ns propertyName json t) []
        = map (\<lambda>p. (0, Parts (renderRead utf16StringEscape ns (fst p) (fst (snd p))
                             (propertyRead ns (snd (snd p)))))) (properties c)"
    using forEachProperty_reads [of utf16StringEscape ns "properties c" "[]"]
    by (simp add: forEachProperty_def)
  have b: "propertyRead ns t =
     (if kind t = ''any'' \<or> kind t = ''null'' then GetUntyped
      else if kind t = ''union'' \<and> (\<exists>m\<in>set (members t). kind m = ''null'')
      then GetOptional (cppTypeInOptional ns (filter (\<lambda>m. kind m \<noteq> ''null'') (members t)) True False)
      else AtGet (cppType ns t True False))"
    by (cases t) (auto simp: propertyRead_def removeNullFromUnion_def find_None_iff)
  have d1: "execRead get j key GetUntyped = Inr (UntypedField JNull)"
    and d2: "execRead get j key (GetOptional T) = Inr (OptionalField None)"
    and d3: "\<exists>err. execRead get j key (AtGet T) = Inl err"
    if "jsonFind j key = None"
    using that
    by (auto simp: get_untyped_def get_optional_def at_get_def jsonAt_def jsonFind_def split: json.splits)
  have d4: "execRead get j key (AtGet T) = Inl err" if "jsonFind j key = Some v" and "get T v = Inl err" for v err
    using that by (auto simp: at_get_def jsonAt_def jsonFind_def split: json.splits)
  have d5: "\<exists>err'. runClassFromJson get ns (properties c) j = Inl err'"
    if "p \<in> set (properties c)" and "execRead get j (fst (snd p)) (propertyRead ns (snd (snd p))) = Inl err" for p err
    using runClassFromJson_fails [OF that] .
  have e: "emitClassFunctions utf16StringEscape ns c className =
     [(0, Parts [Parts [Text ''void from_json(const json& _j, struct '', ourQualifier ns True,
                        NameToken className, Text ''& _x)''],
                 Text '' {''])]
     @ map (\<lambda>p. (1, Parts (renderRead utf16StringEscape ns (fst p) (fst (snd p))
                             (propertyRead ns (snd (snd p))))))
         (properties c)
     @ [(0, Parts [Text ''}''])]
     @ emitNewline
     @ emitBlock
         (Parts [Text ''void to_json(json& _j, const struct '', ourQualifier ns True, NameToken className,
                 Text ''& _x)''])
         False
         (if properties c = [] then emitLine [Text ''_j = json::object();'']
          else emitLine [Text ''_j = json{'', Parts (forEachProperty c (pushArg utf16StringEscape) []),
                         Text ''};''])"
    unfolding emitClassFunctions_def a
    by (simp add: emitBlock_lines comp_def)
  show ?thesis
    using b d1 d2 d3 d4 d5 by (simp only: e renderRead.simps) blast
qed

text \<open>
  C4. The emitted \<open>from_json\<close> of a union tests the predicates in the order boolean,
  integer, double, string, object as class, object as map, array, with a branch only for
  the kinds that some non-null member has. The first predicate that holds of the input
  selects the member decoded; when none holds, the code throws.
\<close>

theorem union_from_json_priority:
  \<open>(let nonNulls = snd (removeNullFromUnion u);
        variantType = cppTypeInOptional ns nonNulls True False;
        branches = fromJsonBranches nonNulls functionForKind
    in emitUnionFunctions ns u =
         emitBlock (Parts [Text ''void from_json(const json& _j, '', variantType, Text ''& _x)'']) False
           (renderBranches ns branches True
            @ [(0, Parts [Text ''else throw "Could not deserialize";''])])
         @ emitNewline
         @ emitBlock (Parts [Text ''void to_json(json& _j, const '', variantType, Text ''& _x)'']) False
             (emitBlock (Text ''switch (_x.which())'') False
                (emitCases ns nonNulls 0
                 @ emitLine [Text ''default: throw "This should not happen";''])) \<and>
       branches =
         (case firstOfKind ''bool'' nonNulls of None \<Rightarrow> [] | Some t \<Rightarrow> [(''is_boolean'', t)]) @
         (case firstOfKind ''integer'' nonNulls of None \<Rightarrow> [] | Some t \<Rightarrow> [(''is_number_integer'', t)]) @
         (case firstOfKind ''double'' nonNulls of None \<Rightarrow> [] | Some t \<Rightarrow> [(''is_number'', t)]) @
         (case firstOfKind ''string'' nonNulls of None \<Rightarrow> [] | Some t \<Rightarrow> [(''is_string'', t)]) @
         (case firstOfKind ''class'' nonNulls of None \<Rightarrow> [] | Some t \<Rightarrow> [(''is_object'', t)]) @
         (case firstOfKind ''map'' nonNulls of None \<Rightarrow> [] | Some t \<Rightarrow> [(''is_object'', t)]) @
         (case firstOfKind ''array'' nonNulls of None \<Rightarrow> [] | Some t \<Rightarrow> [(''is_array'', t)]) \<and>
       runFromJson branches j =
         (case List.find (\<lambda>b. jsonPredicate (fst b) j) branches of
            None \<Rightarrow> Inl (Thrown ''Could not deserialize'')
          | Some b \<Rightarrow> Inr (snd b)) \<and>
       runFromJson branches j =
         selected (case j of
            JNull \<Rightarrow> None
          | JBoolean _ \<Rightarrow> firstOfKind ''bool'' nonNulls
          | JNumberInteger _ \<Rightarrow> orElse (firstOfKind ''integer'' nonNulls) (firstOfKind ''double'' nonNulls)
          | JNumberUnsigned _ \<Rightarrow> orElse (firstOfKind ''integer'' nonNulls) (firstOfKind ''double'' nonNulls)
          | JNumberFloat _ _ \<Rightarrow> firstOfKind ''double'' nonNulls
          | JString _ \<Rightarrow> firstOfKind ''string'' nonNulls
          | JObject _ \<Rightarrow> orElse (firstOfKind ''class'' nonNulls) (firstOfKind ''map'' nonNulls)
          | JArray _ \<Rightarrow> firstOfKind ''array'' nonNulls))\<close>
proof -
  let ?nn = "snd (removeNullFromUnion u)"
  have e: \<open>emitUnionFunctions ns u =
         emitBlock (Parts [Text ''void from_json(const json& _j, '', cppTypeInOptional ns ?nn True False, Text ''& _x)'']) False
           (renderBranches ns (fromJsonBranches ?nn functionForKind) True
            @ [(0, Parts [Text ''else throw "Could not deserialize";''])])
         @ emitNewline
         @ emitBlock (Parts [Text ''void to_json(json& _j, const '', cppTypeInOptional ns ?nn True False, Text ''& _x)'']) False
             (emitBlock (Text ''switch (_x.which())'') False
                (emitCases ns ?nn 0
                 @ emitLine [Text ''default: throw "This should not happen";'']))\<close>
    by (simp add: emitUnionFunctions_def Let_def emitBranches_render emitLine_def)
  show ?thesis
    unfolding Let_def
    using e fromJsonBranches_functionForKind [of ?nn] runFromJson_find [of "fromJsonBranches ?nn functionForKind" j]
      runFromJson_by_value [of ?nn j]
    by (intro conjI)
qed

lemma firstOfKind_Some:
  "firstOfKind k ts = Some t \<Longrightarrow> kind t = k \<and> t \<in> set ts"
  by (auto simp: firstOfKind_def find_Some_iff)

lemma firstOfKind_not_later:
  assumes "firstOfKind k ts = Some t" and "distinct ts" and "i < m" and "m < length ts"
    and "kind (ts ! i) = kind (ts ! m)"
  shows "t \<noteq> ts ! m"
proof
  assume eq: "t = ts ! m"
  from assms(1) obtain i0 where i0: "i0 < length ts" "kind (ts ! i0) = k" "t = ts ! i0"
      "\<forall>j<i0. kind (ts ! j) \<noteq> k"
    by (auto simp: firstOfKind_def find_Some_iff)
  from i0(2,3) eq have "kind (ts ! m) = k" by simp
  with assms(5) have "kind (ts ! i) = k" by simp
  with i0(4) have "\<not> i < i0" by blast
  with assms(3) have "i0 < m" by simp
  with assms(2,4) i0(1) have "ts ! i0 \<noteq> ts ! m"
    by (simp add: nth_eq_iff_index_eq)
  with i0(3) eq show False by simp
qed

lemma firstOfKind_self:
  "Some t = firstOfKind k ts \<Longrightarrow> firstOfKind (kind t) ts = firstOfKind k ts"
  using firstOfKind_Some [of k ts t] by simp

lemma branch_firstOfKind:
  "b \<in> set (fromJsonBranches ts functionForKind) \<Longrightarrow> firstOfKind (kind (snd b)) ts = Some (snd b)"
  unfolding fromJsonBranches_functionForKind
  by (auto split: option.splits intro: firstOfKind_self)

lemma branch_kinds:
  "map (\<lambda>b. kind (snd b)) (fromJsonBranches ts table) =
     filter (\<lambda>k. firstOfKind k ts \<noteq> None) (map fst table)"
proof (induction table)
  case Nil
  then show ?case by (simp add: fromJsonBranches_def List.map_filter_simps)
next
  case (Cons kf table)
  show ?case
  proof (cases "firstOfKind (fst kf) ts")
    case None
    then show ?thesis
      using Cons by (simp add: fromJsonBranches_def List.map_filter_simps firstOfKind_def)
  next
    case (Some t)
    then have "kind t = fst kf" by (simp add: firstOfKind_Some)
    then show ?thesis
      using Cons Some by (simp add: fromJsonBranches_def List.map_filter_simps firstOfKind_def)
  qed
qed

lemma branches_distinct_kinds:
  "distinct (map (\<lambda>b. kind (snd b)) (fromJsonBranches ts functionForKind))"
proof -
  have "distinct (map fst functionForKind)"
    by (simp add: functionForKind_def)
  then show ?thesis
    unfolding branch_kinds by (rule distinct_filter)
qed

lemma runFromJson_member:
  "runFromJson bs j = Inr t \<Longrightarrow> \<exists>b\<in>set bs. snd b = t"
  by (induction bs) (auto split: if_splits)

lemma emitUnionFunctions_branches:
  \<open>emitUnionFunctions ns u =
     emitBlock
       (Parts [Text ''void from_json(const json& _j, '',
               cppTypeInOptional ns (snd (removeNullFromUnion u)) True False, Text ''& _x)''])
       False
       (renderBranches ns (fromJsonBranches (snd (removeNullFromUnion u)) functionForKind) True
        @ [(0, Parts [Text ''else throw "Could not deserialize";''])])
     @ emitNewline
     @ emitBlock
         (Parts [Text ''void to_json(json& _j, const '',
                 cppTypeInOptional ns (snd (removeNullFromUnion u)) True False, Text ''& _x)''])
         False
         (emitBlock (Text ''switch (_x.which())'') False
            (emitCases ns (snd (removeNullFromUnion u)) 0
             @ emitLine [Text ''default: throw "This should not happen";'']))\<close>
  by (simp add: emitUnionFunctions_def Let_def emitBranches_render emitLine_def)

text \<open>
  C10. The \<open>from_json\<close> that \<open>emitUnionFunctions\<close> emits for a union is the chain of the
  branches that its loop binds. There is at most one branch per kind, bound to the first
  member of that kind. When a class is a member, every JSON object selects the first class
  member and no input selects a map member; and no input selects a member that shares its
  kind with an earlier member.
\<close>

theorem union_from_json_first_of_kind:
  \<open>(let nonNulls = snd (removeNullFromUnion u);
        variantType = cppTypeInOptional ns nonNulls True False;
        branches = fromJsonBranches nonNulls functionForKind
    in emitUnionFunctions ns u =
         emitBlock (Parts [Text ''void from_json(const json& _j, '', variantType, Text ''& _x)'']) False
           (renderBranches ns branches True
            @ [(0, Parts [Text ''else throw "Could not deserialize";''])])
         @ emitNewline
         @ emitBlock (Parts [Text ''void to_json(json& _j, const '', variantType, Text ''& _x)'']) False
             (emitBlock (Text ''switch (_x.which())'') False
                (emitCases ns nonNulls 0
                 @ emitLine [Text ''default: throw "This should not happen";''])) \<and>
       emitBranches ns nonNulls functionForKind True = renderBranches ns branches True \<and>
       distinct (map (\<lambda>b. kind (snd b)) branches) \<and>
       (\<forall>b\<in>set branches. firstOfKind (kind (snd b)) nonNulls = Some (snd b)) \<and>
       (\<forall>c kvs. firstOfKind ''class'' nonNulls = Some c \<longrightarrow>
          runFromJson branches (JObject kvs) = Inr c) \<and>
       (\<forall>j t. firstOfKind ''class'' nonNulls \<noteq> None \<and> runFromJson branches j = Inr t \<longrightarrow>
          kind t \<noteq> ''map'') \<and>
       (\<forall>j t i m. distinct nonNulls \<and> runFromJson branches j = Inr t \<and> i < m \<and> m < length nonNulls \<and>
          kind (nonNulls ! i) = kind (nonNulls ! m) \<longrightarrow> t \<noteq> nonNulls ! m))\<close>
proof -
  let ?nn = "snd (removeNullFromUnion u)"
  let ?bs = "fromJsonBranches ?nn functionForKind"
  have em: \<open>emitUnionFunctions ns u =
         emitBlock (Parts [Text ''void from_json(const json& _j, '', cppTypeInOptional ns ?nn True False,
                           Text ''& _x)'']) False
           (renderBranches ns ?bs True
            @ [(0, Parts [Text ''else throw "Could not deserialize";''])])
         @ emitNewline
         @ emitBlock (Parts [Text ''void to_json(json& _j, const '', cppTypeInOptional ns ?nn True False,
                             Text ''& _x)'']) False
             (emitBlock (Text ''switch (_x.which())'') False
                (emitCases ns ?nn 0
                 @ emitLine [Text ''default: throw "This should not happen";'']))\<close>
    by (rule emitUnionFunctions_branches)
  have eb: "emitBranches ns ?nn functionForKind True = renderBranches ns ?bs True"
    by (rule emitBranches_render)
  have a: "distinct (map (\<lambda>b. kind (snd b)) ?bs)"
    by (rule branches_distinct_kinds)
  have b: "\<forall>b\<in>set ?bs. firstOfKind (kind (snd b)) ?nn = Some (snd b)"
    using branch_firstOfKind by blast
  have c: "runFromJson ?bs (JObject kvs) = Inr c" if "firstOfKind ''class'' ?nn = Some c" for c kvs
    using that by (simp add: runFromJson_by_value selected_def orElse_def)
  have d: "kind t \<noteq> ''map''" if "firstOfKind ''class'' ?nn \<noteq> None" and "runFromJson ?bs j = Inr t" for j t
  proof -
    from that(1) obtain c where c: "firstOfKind ''class'' ?nn = Some c" by blast
    show ?thesis
      using that(2) c firstOfKind_Some [of _ ?nn t]
      unfolding runFromJson_by_value
      by (cases j) (auto simp: selected_def orElse_def split: option.splits)
  qed
  have e: "t \<noteq> ?nn ! m"
    if "distinct ?nn" and "runFromJson ?bs j = Inr t" and "i < m" and "m < length ?nn"
      and "kind (?nn ! i) = kind (?nn ! m)" for j t i m
  proof -
    from runFromJson_member [OF that(2)] b have "firstOfKind (kind t) ?nn = Some t" by blast
    from firstOfKind_not_later [OF this that(1,3,4,5)] show ?thesis .
  qed
  have rest:
    "distinct (map (\<lambda>b. kind (snd b)) ?bs) \<and>
     (\<forall>b\<in>set ?bs. firstOfKind (kind (snd b)) ?nn = Some (snd b)) \<and>
     (\<forall>c kvs. firstOfKind ''class'' ?nn = Some c \<longrightarrow> runFromJson ?bs (JObject kvs) = Inr c) \<and>
     (\<forall>j t. firstOfKind ''class'' ?nn \<noteq> None \<and> runFromJson ?bs j = Inr t \<longrightarrow> kind t \<noteq> ''map'') \<and>
     (\<forall>j t i m. distinct ?nn \<and> runFromJson ?bs j = Inr t \<and> i < m \<and> m < length ?nn \<and>
        kind (?nn ! i) = kind (?nn ! m) \<longrightarrow> t \<noteq> ?nn ! m)"
    using a b c d e by blast
  show ?thesis
    unfolding Let_def by (rule conjI [OF em conjI [OF eb rest]])
qed

theorem union_type_mapping_witness:
  "cppType ''quicktype'' (UnionType ''U'' [StringType, NullType]) False True =
     Parts [Text ''boost::optional<'', Text ''std::string'', Text ''>''] \<and>
   cppType ''quicktype'' (UnionType ''U'' [IntegerType, NullType, StringType]) True False =
     Parts [Parts [Text ''quicktype'', Text ''::''], NameToken ''U''] \<and>
   variantType ''quicktype'' (UnionType ''U'' [IntegerType, NullType, StringType]) False =
     Inr (Parts [Text ''boost::optional<'',
                 Parts [Text ''boost::variant<'',
                        Parts [Text ''int64_t'', Text '', '', Text ''std::string''],
                        Text ''>''],
                 Text ''>'']) \<and>
   variantType ''quicktype'' (UnionType ''U'' [StringType]) False =
     Inl (Thrown ''Variant not needed for less than two types.'')"
proof -
  have 1: "cppType ''quicktype'' (UnionType ''U'' [StringType, NullType]) False True =
     Parts [Text ''boost::optional<'', Text ''std::string'', Text ''>'']"
    using union_type_mapping [where n = "''U''" and ms = "[StringType, NullType]" and ns = "''quicktype''"
        and inJ = False and wI = True and unionName = "''U''"]
    by (simp add: Let_def removeNullFromUnion_def)
  have 2: "cppType ''quicktype'' (UnionType ''U'' [IntegerType, NullType, StringType]) True False =
     Parts [Parts [Text ''quicktype'', Text ''::''], NameToken ''U'']"
    using union_type_mapping [where n = "''U''" and ms = "[IntegerType, NullType, StringType]"
        and ns = "''quicktype''" and inJ = True and wI = False and unionName = "''U''"]
    by (simp add: Let_def removeNullFromUnion_def ourQualifier_def)
  have 3: "variantType ''quicktype'' (UnionType ''U'' [IntegerType, NullType, StringType]) False =
     Inr (Parts [Text ''boost::optional<'',
                 Parts [Text ''boost::variant<'',
                        Parts [Text ''int64_t'', Text '', '', Text ''std::string''],
                        Text ''>''],
                 Text ''>''])"
    using union_type_mapping [where n = "''U''" and ms = "[IntegerType, NullType, StringType]"
        and ns = "''quicktype''" and inJ = False and wI = False and unionName = "''U''"]
    by (simp add: Let_def removeNullFromUnion_def)
  have 4: "variantType ''quicktype'' (UnionType ''U'' [StringType]) False =
     Inl (Thrown ''Variant not needed for less than two types.'')"
    using union_type_mapping [where n = "''U''" and ms = "[StringType]" and ns = "''quicktype''"
        and inJ = False and wI = False and unionName = "''U''"]
    by (simp add: Let_def removeNullFromUnion_def)
  show ?thesis using 1 2 3 4 by simp
qed

theorem union_from_json_priority_witness:
  "runFromJson
     (fromJsonBranches (snd (removeNullFromUnion (UnionType ''U'' [ArrayType BoolType, StringType, IntegerType])))
        functionForKind)
     (JArray [JBoolean True, JBoolean False]) = Inr (ArrayType BoolType) \<and>
   runFromJson
     (fromJsonBranches (snd (removeNullFromUnion (UnionType ''U'' [IntegerType, StringType, ArrayType BoolType])))
        functionForKind)
     (JArray [JBoolean True, JBoolean False]) = Inr (ArrayType BoolType) \<and>
   fromJsonBranches (snd (removeNullFromUnion (UnionType ''U'' [ArrayType BoolType, StringType, IntegerType])))
        functionForKind
     = [(''is_number_integer'', IntegerType), (''is_string'', StringType), (''is_array'', ArrayType BoolType)] \<and>
   runFromJson
     (fromJsonBranches (snd (removeNullFromUnion (UnionType ''U'' [ArrayType BoolType, StringType, IntegerType])))
        functionForKind)
     JNull = Inl (Thrown ''Could not deserialize'')"
proof -
  let ?u1 = "UnionType ''U'' [ArrayType BoolType, StringType, IntegerType]"
  let ?u2 = "UnionType ''U'' [IntegerType, StringType, ArrayType BoolType]"
  let ?j = "JArray [JBoolean True, JBoolean False]"
  have n1: "snd (removeNullFromUnion ?u1) = [ArrayType BoolType, StringType, IntegerType]"
    and n2: "snd (removeNullFromUnion ?u2) = [IntegerType, StringType, ArrayType BoolType]"
    by (simp_all add: removeNullFromUnion_def)
  note p1 = union_from_json_priority [where ns = "''quicktype''" and u = ?u1 and j = ?j, unfolded Let_def]
  note p2 = union_from_json_priority [where ns = "''quicktype''" and u = ?u2 and j = ?j, unfolded Let_def]
  note p3 = union_from_json_priority [where ns = "''quicktype''" and u = ?u1 and j = JNull, unfolded Let_def]
  have 1: "runFromJson (fromJsonBranches (snd (removeNullFromUnion ?u1)) functionForKind) ?j = Inr (ArrayType BoolType)"
    using p1 [THEN conjunct2, THEN conjunct2, THEN conjunct2]
    by (simp add: n1 selected_def firstOfKind_def)
  have 2: "runFromJson (fromJsonBranches (snd (removeNullFromUnion ?u2)) functionForKind) ?j = Inr (ArrayType BoolType)"
    using p2 [THEN conjunct2, THEN conjunct2, THEN conjunct2]
    by (simp add: n2 selected_def firstOfKind_def)
  have 3: "fromJsonBranches (snd (removeNullFromUnion ?u1)) functionForKind
     = [(''is_number_integer'', IntegerType), (''is_string'', StringType), (''is_array'', ArrayType BoolType)]"
    using p3 [THEN conjunct2, THEN conjunct1]
    by (simp add: n1 firstOfKind_def)
  have 4: "runFromJson (fromJsonBranches (snd (removeNullFromUnion ?u1)) functionForKind) JNull
     = Inl (Thrown ''Could not deserialize'')"
    using p3 [THEN conjunct2, THEN conjunct2, THEN conjunct2]
    by (simp add: n1 selected_def)
  show ?thesis using 1 2 3 4 by simp
qed

theorem union_from_json_first_of_kind_witness:
  \<open>map (\<lambda>l. (fst l, sourcelikeToString (snd l)))
     (take 7 (emitUnionFunctions ''quicktype''
        (UnionType ''U'' [MapType StringType, ClassType ''C'' [], ClassType ''D'' []]))) =
     [(0, ''void from_json(const json& _j, boost::variant<std::map<std::string, std::string>, struct quicktype::C, struct quicktype::D>& _x) {''),
      (1, ''if (_j.is_object())''),
      (2, ''_x = _j.get<struct quicktype::C>();''),
      (1, ''else if (_j.is_object())''),
      (2, ''_x = _j.get<std::map<std::string, std::string>>();''),
      (1, ''else throw "Could not deserialize";''),
      (0, ''}'')] \<and>
   map (\<lambda>l. (fst l, sourcelikeToString (snd l)))
     (emitBranches ''quicktype'' [MapType StringType, ClassType ''C'' [], ClassType ''D'' []]
        functionForKind True) =
     [(0, ''if (_j.is_object())''),
      (1, ''_x = _j.get<struct quicktype::C>();''),
      (0, ''else if (_j.is_object())''),
      (1, ''_x = _j.get<std::map<std::string, std::string>>();'')] \<and>
   firstOfKind ''class''
     (snd (removeNullFromUnion (UnionType ''U'' [MapType StringType, ClassType ''C'' [], ClassType ''D'' []])))
     = Some (ClassType ''C'' []) \<and>
   distinct (snd (removeNullFromUnion (UnionType ''U'' [MapType StringType, ClassType ''C'' [], ClassType ''D'' []]))) \<and>
   runFromJson
     (fromJsonBranches
        (snd (removeNullFromUnion (UnionType ''U'' [MapType StringType, ClassType ''C'' [], ClassType ''D'' []])))
        functionForKind)
     (JObject [(''a'', JString ''b'')]) = Inr (ClassType ''C'' []) \<and>
   kind (ClassType ''C'' []) \<noteq> ''map'' \<and>
   ClassType ''C'' [] \<noteq>
     snd (removeNullFromUnion (UnionType ''U'' [MapType StringType, ClassType ''C'' [], ClassType ''D'' []])) ! 2\<close>
proof -
  let ?u = "UnionType ''U'' [MapType StringType, ClassType ''C'' [], ClassType ''D'' []]"
  let ?nn = "snd (removeNullFromUnion ?u)"
  let ?j = "JObject [(''a'', JString ''b'')]"
  have n: "?nn = [MapType StringType, ClassType ''C'' [], ClassType ''D'' []]"
    by (simp add: removeNullFromUnion_def)
  have c: "firstOfKind ''class'' ?nn = Some (ClassType ''C'' [])"
    by (simp add: n firstOfKind_def)
  have d: "distinct ?nn" by (simp add: n)
  have bs: "fromJsonBranches [MapType StringType, ClassType ''C'' [], ClassType ''D'' []] functionForKind
      = [(''is_object'', ClassType ''C'' []), (''is_object'', MapType StringType)]"
    by (simp add: fromJsonBranches_def functionForKind_def List.map_filter_simps)
  note w = union_from_json_first_of_kind [where u = ?u and ns = "''quicktype''", unfolded Let_def]
  note t = w [THEN conjunct2, THEN conjunct2]
  have 1: \<open>map (\<lambda>l. (fst l, sourcelikeToString (snd l))) (take 7 (emitUnionFunctions ''quicktype'' ?u)) =
     [(0, ''void from_json(const json& _j, boost::variant<std::map<std::string, std::string>, struct quicktype::C, struct quicktype::D>& _x) {''),
      (1, ''if (_j.is_object())''),
      (2, ''_x = _j.get<struct quicktype::C>();''),
      (1, ''else if (_j.is_object())''),
      (2, ''_x = _j.get<std::map<std::string, std::string>>();''),
      (1, ''else throw "Could not deserialize";''),
      (0, ''}'')]\<close>
    unfolding w [THEN conjunct1] n bs
    by (simp add: emitBlock_lines cppTypeInOptional_def ourQualifier_def numeral_2_eq_2)
  have 2: \<open>map (\<lambda>l. (fst l, sourcelikeToString (snd l)))
     (emitBranches ''quicktype'' [MapType StringType, ClassType ''C'' [], ClassType ''D'' []]
        functionForKind True) =
     [(0, ''if (_j.is_object())''),
      (1, ''_x = _j.get<struct quicktype::C>();''),
      (0, ''else if (_j.is_object())''),
      (1, ''_x = _j.get<std::map<std::string, std::string>>();'')]\<close>
    using w [THEN conjunct2, THEN conjunct1]
    by (simp add: n bs ourQualifier_def)
  from t c have r: "runFromJson (fromJsonBranches ?nn functionForKind) ?j = Inr (ClassType ''C'' [])"
    by blast
  from t c r have m: "kind (ClassType ''C'' []) \<noteq> ''map''"
    by blast
  have "(1::nat) < 2" and "2 < length ?nn" and "kind (?nn ! 1) = kind (?nn ! 2)"
    by (simp_all add: n)
  with t d r have l: "ClassType ''C'' [] \<noteq> ?nn ! 2"
    by blast
  show ?thesis using 1 2 c d r m l by simp
qed

theorem union_to_json_dispatch_witness:
  \<open>2 \<le> length (snd (removeNullFromUnion (UnionType ''U'' [IntegerType, StringType]))) \<and>
   \<not> fst (removeNullFromUnion (UnionType ''U'' [IntegerType, StringType])) \<and>
   emitUnionTypedefs ''quicktype'' (UnionType ''U'' [IntegerType, StringType]) ''U'' =
     Inr [(0, Parts [Text ''typedef '',
                     Parts [Text ''boost::variant<'',
                            Parts [Text ''int64_t'', Text '', '', Text ''std::string''],
                            Text ''>''],
                     Text '' '', NameToken ''U'', Text '';''])] \<and>
   drop 8 (emitUnionFunctions ''quicktype'' (UnionType ''U'' [IntegerType, StringType])) =
     [(0, Parts [Parts [Text ''void to_json(json& _j, const '',
                        Parts [Text ''boost::variant<'',
                               Parts [Text ''int64_t'', Text '', '', Text ''std::string''],
                               Text ''>''],
                        Text ''& _x)''],
                 Text '' {'']),
      (1, Parts [Text ''switch (_x.which())'', Text '' {'']),
      (2, Parts [Text ''case '', Text ''0'', Text '':'']),
      (3, Parts [Text ''_j = boost::get<'', Text ''int64_t'', Text ''>(_x);'']),
      (3, Parts [Text ''break;'']),
      (2, Parts [Text ''case '', Text ''1'', Text '':'']),
      (3, Parts [Text ''_j = boost::get<'', Text ''std::string'', Text ''>(_x);'']),
      (3, Parts [Text ''break;'']),
      (2, Parts [Text ''default: throw "This should not happen";'']),
      (1, Parts [Text ''}'']),
      (0, Parts [Text ''}''])]\<close>
proof -
  let ?u = "UnionType ''U'' [IntegerType, StringType]"
  have n: "removeNullFromUnion ?u = (False, [IntegerType, StringType])"
    by (simp add: removeNullFromUnion_def)
  have s: "toString 0 = ''0''" "toString (Suc 0) = ''1''"
    by (simp_all add: toString.simps)
  have u: "[0..<2] = [0, Suc 0]" by (simp add: upt_rec)
  note t = union_to_json_dispatch [where ns = "''quicktype''" and u = ?u and unionName = "''U''",
      unfolded Let_def n fst_conv snd_conv]
  have 1: "2 \<le> length (snd (removeNullFromUnion ?u))" and 2: "\<not> fst (removeNullFromUnion ?u)"
    by (simp_all add: n)
  have 3: "emitUnionTypedefs ''quicktype'' ?u ''U'' =
     Inr [(0, Parts [Text ''typedef '',
                     Parts [Text ''boost::variant<'',
                            Parts [Text ''int64_t'', Text '', '', Text ''std::string''],
                            Text ''>''],
                     Text '' '', NameToken ''U'', Text '';''])]"
    using t [THEN conjunct2] by (simp add: u)
  have \<open>length (emitBlock (Parts [Text ''void from_json(const json& _j, '',
            cppTypeInOptional ''quicktype'' [IntegerType, StringType] True False, Text ''& _x)'']) False
           (emitBranches ''quicktype'' [IntegerType, StringType] functionForKind True
            @ emitLine [Text ''else throw "Could not deserialize";''])
         @ emitNewline) = 8\<close>
    by (simp add: emitBlock_lines emitLine_def emitNewline_def functionForKind_def indent_def)
  then show ?thesis
    using 1 2 3 t [THEN conjunct1]
    by (simp add: s u cppTypeInOptional_def)
qed

text \<open>
  C5, as stated, fails: the emitted \<open>switch\<close> ends with a default case.
\<close>

theorem union_to_json_has_default:
  \<open>emitUnionFunctions ''quicktype'' (UnionType ''U'' [IntegerType, StringType]) ! 16 =
     (2, Parts [Text ''default: throw "This should not happen";''])\<close>
  by (simp add: emitUnionFunctions_def removeNullFromUnion_def Let_def cppTypeInOptional_def
      emitBlock_def emitLine_def emitNewline_def indent_def functionForKind_def)

theorem class_to_json_witness:
  \<open>drop 3 (emitClassFunctions (\<lambda>s. s) ''quicktype'' (ClassType ''Empty'' []) ''Empty'') =
     [(0, Parts [Parts [Text ''void to_json(json& _j, const struct '',
                        Parts [Text ''quicktype'', Text ''::''], NameToken ''Empty'', Text ''& _x)''],
                 Text '' {'']),
      (1, Parts [Text ''_j = json::object();'']),
      (0, Parts [Text ''}''])] \<and>
   map (\<lambda>l. sourcelikeToString (snd l))
     (drop 5 (emitClassFunctions (\<lambda>s. s) ''quicktype''
        (ClassType ''Person'' [(''name'', ''name'', StringType), (''age'', ''the age'', IntegerType)])
        ''Person'')) =
     [''void to_json(json& _j, const struct quicktype::Person& _x) {'',
      ''_j = json{{"name", _x.name}, {"the age", _x.age}};'',
      ''}'']\<close>
proof -
  let ?e = "ClassType ''Empty'' []"
  let ?p = "ClassType ''Person'' [(''name'', ''name'', StringType), (''age'', ''the age'', IntegerType)]"
  have 1: \<open>drop 3 (emitClassFunctions (\<lambda>s. s) ''quicktype'' ?e ''Empty'') =
     [(0, Parts [Parts [Text ''void to_json(json& _j, const struct '',
                        Parts [Text ''quicktype'', Text ''::''], NameToken ''Empty'', Text ''& _x)''],
                 Text '' {'']),
      (1, Parts [Text ''_j = json::object();'']),
      (0, Parts [Text ''}''])]\<close>
    using class_to_json [where utf16StringEscape = "\<lambda>s. s" and ns = "''quicktype''" and c = ?e
        and className = "''Empty''"]
    by (simp add: emitBlock_lines emitNewline_def forEachProperty_def ourQualifier_def)
  have 2: \<open>map (\<lambda>l. sourcelikeToString (snd l))
     (drop 5 (emitClassFunctions (\<lambda>s. s) ''quicktype'' ?p ''Person'')) =
     [''void to_json(json& _j, const struct quicktype::Person& _x) {'',
      ''_j = json{{"name", _x.name}, {"the age", _x.age}};'',
      ''}'']\<close>
    using class_to_json [where utf16StringEscape = "\<lambda>s. s" and ns = "''quicktype''" and c = ?p
        and className = "''Person''"]
    by (simp add: emitBlock_lines emitNewline_def forEachProperty_def ourQualifier_def
        readProperty_def emitLine_def)
  show ?thesis using 1 2 by simp
qed

theorem class_from_json_reads_witness:
  \<open>map (\<lambda>l. sourcelikeToString (snd l))
     (take 5 (emitClassFunctions (\<lambda>s. s) ''quicktype''
        (ClassType ''Person''
           [(''name'', ''name'', StringType),
            (''age'', ''age'', UnionType ''Age'' [IntegerType, NullType]),
            (''extra'', ''extra'', AnyType)])
        ''Person'')) =
     [''void from_json(const json& _j, struct quicktype::Person& _x) {'',
      ''_x.name = _j.at("name").get<std::string>();'',
      ''_x.age = quicktype::get_optional<int64_t>(_j, "age");'',
      ''_x.extra = quicktype::get_untyped(_j, "extra");'',
      ''}''] \<and>
   jsonFind (JObject [(''name'', JNumberInteger 3)]) ''extra'' = None \<and>
   execRead (\<lambda>T v. if is_string v then Inr v else Inl (Thrown ''type_error''))
     (JObject [(''name'', JNumberInteger 3)]) ''extra'' GetUntyped = Inr (UntypedField JNull) \<and>
   execRead (\<lambda>T v. if is_string v then Inr v else Inl (Thrown ''type_error''))
     (JObject [(''name'', JNumberInteger 3)]) ''extra'' (GetOptional (Text ''int64_t''))
     = Inr (OptionalField None) \<and>
   (\<exists>err. execRead (\<lambda>T v. if is_string v then Inr v else Inl (Thrown ''type_error''))
     (JObject [(''name'', JNumberInteger 3)]) ''extra'' (AtGet (Text ''std::string'')) = Inl err) \<and>
   jsonFind (JObject [(''name'', JNumberInteger 3)]) ''name'' = Some (JNumberInteger 3) \<and>
   execRead (\<lambda>T v. if is_string v then Inr v else Inl (Thrown ''type_error''))
     (JObject [(''name'', JNumberInteger 3)]) ''name'' (AtGet (Text ''std::string''))
     = Inl (Thrown ''type_error'') \<and>
   (\<exists>err. runClassFromJson (\<lambda>T v. if is_string v then Inr v else Inl (Thrown ''type_error'')) ''quicktype''
     (properties (ClassType ''Person''
           [(''name'', ''name'', StringType),
            (''age'', ''age'', UnionType ''Age'' [IntegerType, NullType]),
            (''extra'', ''extra'', AnyType)]))
     (JObject [(''name'', JNumberInteger 3)]) = Inl err)\<close>
proof -
  let ?c = "ClassType ''Person''
           [(''name'', ''name'', StringType),
            (''age'', ''age'', UnionType ''Age'' [IntegerType, NullType]),
            (''extra'', ''extra'', AnyType)]"
  let ?j = "JObject [(''name'', JNumberInteger 3)]"
  let ?get = "\<lambda>(T::Sourcelike) v. if is_string v then Inr v else Inl (Thrown ''type_error'')"
  note t = class_from_json_reads [where utf16StringEscape = "\<lambda>s. s" and ns = "''quicktype''" and c = ?c
      and className = "''Person''" and j = ?j and get = ?get]
  note e = t [where key = "''extra''" and T = "Text ''int64_t''"]
  note m = t [where key = "''name''" and T = "Text ''std::string''"]
  have pr: "propertyRead ''quicktype'' StringType = AtGet (Text ''std::string'')"
    "propertyRead ''quicktype'' (UnionType ''Age'' [IntegerType, NullType]) = GetOptional (Text ''int64_t'')"
    "propertyRead ''quicktype'' AnyType = GetUntyped"
    by (simp_all add: propertyRead_def removeNullFromUnion_def cppTypeInOptional_def)
  have 1: \<open>map (\<lambda>l. sourcelikeToString (snd l))
     (take 5 (emitClassFunctions (\<lambda>s. s) ''quicktype'' ?c ''Person'')) =
     [''void from_json(const json& _j, struct quicktype::Person& _x) {'',
      ''_x.name = _j.at("name").get<std::string>();'',
      ''_x.age = quicktype::get_optional<int64_t>(_j, "age");'',
      ''_x.extra = quicktype::get_untyped(_j, "extra");'',
      ''}'']\<close>
    using e [THEN conjunct1] by (simp add: pr ourQualifier_def)
  have f1: "jsonFind ?j ''extra'' = None" and f2: "jsonFind ?j ''name'' = Some (JNumberInteger 3)"
    by (simp_all add: jsonFind_def)
  have g: "?get (Text ''std::string'') (JNumberInteger 3) = Inl (Thrown ''type_error'')"
    by simp
  from e f1 have 2: "execRead ?get ?j ''extra'' GetUntyped = Inr (UntypedField JNull)"
    and 3: "execRead ?get ?j ''extra'' (GetOptional (Text ''int64_t'')) = Inr (OptionalField None)"
    by blast+
  from t [where key = "''extra''" and T = "Text ''std::string''"] f1
  have 4: "\<exists>err. execRead ?get ?j ''extra'' (AtGet (Text ''std::string'')) = Inl err"
    by blast
  from m f2 g have 5: "execRead ?get ?j ''name'' (AtGet (Text ''std::string'')) = Inl (Thrown ''type_error'')"
    by blast
  have "(''name'', ''name'', StringType) \<in> set (properties ?c)" by simp
  moreover have "execRead ?get ?j (fst (snd (''name'', ''name'', StringType)))
      (propertyRead ''quicktype'' (snd (snd (''name'', ''name'', StringType)))) = Inl (Thrown ''type_error'')"
    using 5 by (simp add: pr)
  ultimately have 6: "\<exists>err. runClassFromJson ?get ''quicktype'' (properties ?c) ?j = Inl err"
    using m by blast
  show ?thesis using 1 f1 2 3 4 f2 5 6 by simp
qed

end
